theory Spec2Isabelle
  imports Main "HOL-Library.AList"
begin

section \<open>Strings as the handlers use them\<close>

text \<open>
  Strings are lists of bytes. The source works on UTF-16 code units, but every
  character it tests for (the plus sign and the ten decimal digits) is ASCII, so
  a leading plus and the digits of a string are the same in both readings.
\<close>

definition isDigit :: "char \<Rightarrow> bool" where
  "isDigit c = (c \<in> set ''0123456789'')"

text \<open>\<^verbatim>\<open>s.replace(/\D/g, "")\<close>: every character that is not a decimal digit is dropped.\<close>

definition stripNonDigits :: "string \<Rightarrow> string" where
  "stripNonDigits s = filter isDigit s"

text \<open>\<^verbatim>\<open>s.startsWith(p)\<close> and \<^verbatim>\<open>s.substring(i)\<close>.\<close>

definition startsWith :: "string \<Rightarrow> string \<Rightarrow> bool" where
  "startsWith s p = (take (length p) s = p)"

definition substring :: "string \<Rightarrow> nat \<Rightarrow> string" where
  "substring s i = drop i s"

section \<open>Phone normalisation\<close>

text \<open>
  \<^verbatim>\<open>formatPhoneNumber\<close> of \<^verbatim>\<open>functions/src/index.ts\<close>, branch for branch.
\<close>

definition formatPhoneNumber :: "string \<Rightarrow> string" where
  "formatPhoneNumber phone =
     (let digits = stripNonDigits phone in
      if startsWith digits ''1'' then ''+'' @ digits
      else if startsWith digits ''0'' then ''+'' @ substring digits 1
      else if \<not> startsWith phone ''+'' then ''+'' @ digits
      else phone)"

text \<open>
  The normaliser as the specification words it: rule 2 fires only when the input
  carries no plus sign of its own. It serves for comparison with the code only.
\<close>

definition formatPhoneNumber_spec :: "string \<Rightarrow> string" where
  "formatPhoneNumber_spec phone =
     (let digits = stripNonDigits phone in
      if startsWith digits ''1'' \<and> \<not> startsWith phone ''+'' then ''+'' @ digits
      else if startsWith digits ''0'' then ''+'' @ substring digits 1
      else if \<not> startsWith phone ''+'' then ''+'' @ digits
      else phone)"

text \<open>
  The canonical form of the contract: a plus sign, then decimal digits only (any number
  of them, so that the weakest reading of the contract is the one tested).
\<close>

definition canonical :: "string \<Rightarrow> bool" where
  "canonical s = (case s of [] \<Rightarrow> False | c # ds \<Rightarrow> c = CHR ''+'' \<and> list_all isDigit ds)"

section \<open>JSON values, requests and responses\<close>

datatype jval = JStr string | JNum int | JBool bool

type_synonym json = "(string \<times> jval) list"

text \<open>
  A request is its HTTP method and its JSON body. The body's fields are strings, as the
  interface of both endpoints declares them; a field that is absent reads as \<open>None\<close>.
  Bodies with fields of another JSON type are not modelled.
  A response is the status and the JSON object given to \<^verbatim>\<open>res.status(..).json(..)\<close>.
\<close>

record request =
  httpMethod :: string
  body :: "string \<Rightarrow> string option"

type_synonym response = "nat \<times> json"

text \<open>
  JavaScript's truthiness on an optional string: \<^verbatim>\<open>undefined\<close> and the empty string
  are falsy, every other string is truthy.
\<close>

definition strOf :: "string option \<Rightarrow> string" where
  "strOf v = (case v of None \<Rightarrow> [] | Some s \<Rightarrow> s)"

definition truthy :: "string option \<Rightarrow> bool" where
  "truthy v = (strOf v \<noteq> [])"

text \<open>\<^verbatim>\<open>v || d\<close> on an optional string.\<close>

definition orElse :: "string option \<Rightarrow> string \<Rightarrow> string" where
  "orElse v d = (if truthy v then strOf v else d)"

text \<open>
  The \<^verbatim>\<open>ErrorResponse\<close> object; \<^verbatim>\<open>details: undefined\<close> is left out of the JSON.
\<close>

definition ErrorResponse :: "string \<Rightarrow> string option \<Rightarrow> json" where
  "ErrorResponse err details =
     [(''success'', JBool False), (''error'', JStr err)]
       @ (case details of None \<Rightarrow> [] | Some d \<Rightarrow> [(''details'', JStr d)])"

section \<open>The stores\<close>

record VerificationData =
  phoneNumber :: string
  code :: string
  expiresAt :: int
  createdAt :: int

text \<open>
  A user of the identity provider (\<^verbatim>\<open>admin.auth.UserRecord\<close>), with the three
  properties the handlers read or write.
\<close>

record UserRecord =
  uid :: string
  userPhone :: string
  displayName :: string

text \<open>A template message that the messaging API has accepted.\<close>

record TemplateMessage =
  recipient :: string
  template :: string
  languageCode :: string
  textParam :: string

text \<open>
  The world the handlers act on: the two nodes of the Realtime Database
  (\<^verbatim>\<open>verificationCodes\<close> and \<^verbatim>\<open>users\<close>, each a list of children that is
  read through \<open>map_of\<close>), the directory of the identity provider, and the messages
  accepted by the messaging API, oldest first.
  Timestamps are integers: \<^verbatim>\<open>Date.now()\<close> returns whole milliseconds, far below
  the range where a JavaScript number stops being exact.
\<close>

record world =
  codes :: "(string \<times> VerificationData) list"
  users :: "(string \<times> json) list"
  auth :: "UserRecord list"
  outbox :: "TemplateMessage list"

text \<open>
  What an invocation takes from outside: the successive readings of \<^verbatim>\<open>Date.now()\<close>
  (\<open>dateNow e 0\<close> is the first call of the invocation, \<open>dateNow e 1\<close> the second),
  the string of \<^verbatim>\<open>Math.floor(100000 + Math.random() * 900000)\<close>, the key of
  \<^verbatim>\<open>codesRef.push()\<close>, the \<^verbatim>\<open>whatsapp\<close> section of \<^verbatim>\<open>functions.config()\<close>,
  whether \<^verbatim>\<open>axios.post\<close> returns (or throws), whether \<^verbatim>\<open>NODE_ENV\<close> is
  \<^verbatim>\<open>development\<close>, and of the identity provider: which phone numbers it accepts,
  the uid it gives to the next new user, the token it signs for a uid, and the message
  text of an error code.
\<close>

record env =
  dateNow :: "nat \<Rightarrow> int"
  verificationCode :: string
  pushKey :: string
  whatsapp :: "string \<Rightarrow> string option"
  axiosPost :: bool
  development :: bool
  validPhone :: "string \<Rightarrow> bool"
  newUid :: string
  createCustomToken :: "string \<Rightarrow> string"
  errorMessage :: "string \<Rightarrow> string"

subsection \<open>Realtime Database\<close>

text \<open>
  The database is a reliable store: its reads and writes return. A node is the list of
  its children; \<^verbatim>\<open>child(k).once("value")\<close> reads the child \<open>k\<close>,
  \<^verbatim>\<open>child(k).set(v)\<close> replaces it, \<^verbatim>\<open>child(k).remove()\<close> deletes it (nothing
  happens when it is absent), and \<^verbatim>\<open>update(u)\<close> writes every entry of \<open>u\<close>, an
  entry with the value \<^verbatim>\<open>null\<close> (\<open>None\<close>) deleting that child.
\<close>

definition dbGet :: "(string \<times> 'v) list \<Rightarrow> string \<Rightarrow> 'v option" where
  "dbGet node k = map_of node k"

definition dbSet :: "string \<Rightarrow> 'v \<Rightarrow> (string \<times> 'v) list \<Rightarrow> (string \<times> 'v) list" where
  "dbSet k v node = AList.update k v node"

definition dbRemove :: "string \<Rightarrow> (string \<times> 'v) list \<Rightarrow> (string \<times> 'v) list" where
  "dbRemove k node = AList.delete k node"

definition dbWrite :: "string \<times> 'v option \<Rightarrow> (string \<times> 'v) list \<Rightarrow> (string \<times> 'v) list" where
  "dbWrite kv node = (case snd kv of None \<Rightarrow> dbRemove (fst kv) node | Some v \<Rightarrow> dbSet (fst kv) v node)"

definition dbUpdate :: "(string \<times> 'v option) list \<Rightarrow> (string \<times> 'v) list \<Rightarrow> (string \<times> 'v) list" where
  "dbUpdate updates node = fold dbWrite updates node"

text \<open>
  \<^verbatim>\<open>child(k).update(o)\<close> on a node of objects: the fields of \<open>o\<close> are written into the
  child \<open>k\<close>, which is created when absent; its other fields stay.
\<close>

definition dbChildUpdate :: "string \<Rightarrow> json \<Rightarrow> (string \<times> json) list \<Rightarrow> (string \<times> json) list" where
  "dbChildUpdate k written node =
     dbSet k (dbUpdate (map (\<lambda>(f, v). (f, Some v)) written)
                (case dbGet node k of None \<Rightarrow> [] | Some obj \<Rightarrow> obj)) node"

text \<open>
  \<^verbatim>\<open>orderByChild("expiresAt").endAt(t).once("value")\<close>: the children in the order of
  their \<^verbatim>\<open>expiresAt\<close>, up to and including the value \<open>t\<close>. Every child of the node
  is a \<^verbatim>\<open>VerificationData\<close>, the only thing the handlers write there, so every child
  has the field.
\<close>

definition orderByExpiresAt_endAt ::
  "int \<Rightarrow> (string \<times> VerificationData) list \<Rightarrow> (string \<times> VerificationData) list" where
  "orderByExpiresAt_endAt t node =
     filter (\<lambda>kv. expiresAt (snd kv) \<le> t) (sort_key (\<lambda>kv. expiresAt (snd kv)) (AList.clearjunk node))"

subsection \<open>Identity provider\<close>

text \<open>
  The provider is a directory of users. It is not part of the repository; the model
  has the error codes the handler tells apart (\<^verbatim>\<open>auth/user-not-found\<close> and
  \<^verbatim>\<open>auth/invalid-phone-number\<close>) and the provider's refusal of a second user
  with a phone number or uid that is taken. An error is its code.
\<close>

definition getUserByPhoneNumber :: "env \<Rightarrow> UserRecord list \<Rightarrow> string \<Rightarrow> string + UserRecord" where
  "getUserByPhoneNumber e dir phone =
     (if \<not> validPhone e phone then Inl ''auth/invalid-phone-number''
      else case find (\<lambda>u. userPhone u = phone) dir of
             None \<Rightarrow> Inl ''auth/user-not-found''
           | Some u \<Rightarrow> Inr u)"

definition updateUser :: "UserRecord list \<Rightarrow> string \<Rightarrow> string \<Rightarrow> string + UserRecord list" where
  "updateUser dir i dn =
     (if i \<notin> uid ` set dir then Inl ''auth/user-not-found''
      else Inr (map (\<lambda>u. if uid u = i then u\<lparr>displayName := dn\<rparr> else u) dir))"

definition createUser ::
  "env \<Rightarrow> UserRecord list \<Rightarrow> string \<Rightarrow> string \<Rightarrow> string + UserRecord \<times> UserRecord list" where
  "createUser e dir dn phone =
     (if \<not> validPhone e phone then Inl ''auth/invalid-phone-number''
      else if phone \<in> userPhone ` set dir then Inl ''auth/phone-number-already-exists''
      else if newUid e \<in> uid ` set dir then Inl ''auth/uid-already-exists''
      else let u = \<lparr>uid = newUid e, userPhone = phone, displayName = dn\<rparr>
           in Inr (u, dir @ [u]))"

section \<open>The Issuer\<close>

text \<open>
  \<^verbatim>\<open>sendWhatsAppVerificationCode\<close>: its whole body is inside \<^verbatim>\<open>try\<close>, and the
  \<^verbatim>\<open>catch\<close> returns \<^verbatim>\<open>false\<close>, so it returns a boolean and never throws.
\<close>

definition sendWhatsAppVerificationCode :: "env \<Rightarrow> world \<Rightarrow> string \<Rightarrow> string \<Rightarrow> bool \<times> world" where
  "sendWhatsAppVerificationCode e w phone vcode =
     (let phoneId = orElse (whatsapp e ''phone_id'') ''TEST_PHONE_ID'';
          accessToken = orElse (whatsapp e ''token'') ''TEST_TOKEN'';
          templateName = orElse (whatsapp e ''template_name'') ''verification'';
          lang = orElse (whatsapp e ''language'') ''en''
      in if phoneId = ''TEST_PHONE_ID'' \<or> accessToken = ''TEST_TOKEN'' then (True, w)
         else if axiosPost e
           then (True, w\<lparr>outbox := outbox w @
                   [\<lparr>recipient = phone, template = templateName,
                     languageCode = lang, textParam = vcode\<rparr>]\<rparr>)
           else (False, w))"

text \<open>
  \<^verbatim>\<open>requestVerification\<close>, with the delivery step as a parameter: \<open>deliver\<close> is
  given the world as it is when the step begins, and returns \<open>Inl\<close> when it throws.
  The handler's inner \<^verbatim>\<open>catch\<close> logs the error and goes on; the value of a delivery
  that returns is not looked at. The store does not fail and the phone number is a
  string, so nothing reaches the outer \<^verbatim>\<open>catch\<close> with its status 500.
  The handler reads the clock twice while it builds the record: first for
  \<^verbatim>\<open>expiresAt\<close>, then for \<^verbatim>\<open>createdAt\<close>.
\<close>

definition requestVerification_with ::
  "(world \<Rightarrow> string \<Rightarrow> string \<Rightarrow> (string + bool) \<times> world) \<Rightarrow> env \<Rightarrow> request \<Rightarrow> world
     \<Rightarrow> response \<times> world" where
  "requestVerification_with deliver e req w =
     (if httpMethod req \<noteq> ''POST'' then ((405, ErrorResponse ''Method not allowed'' None), w)
      else let phone = body req ''phoneNumber'' in
        if \<not> truthy phone then ((400, ErrorResponse ''Phone number is required'' None), w)
        else
          let formattedPhoneNumber = formatPhoneNumber (strOf phone);
              vcode = verificationCode e;
              codeId = pushKey e;
              verificationData = \<lparr>phoneNumber = formattedPhoneNumber, code = vcode,
                 expiresAt = dateNow e 0 + 5 * 60 * 1000, createdAt = dateNow e 1\<rparr>;
              w1 = w\<lparr>codes := dbSet codeId verificationData (codes w)\<rparr>;
              ok = (200, [(''success'', JBool True), (''codeId'', JStr codeId)])
          in case deliver w1 formattedPhoneNumber vcode of
               (Inl whatsappError, w2) \<Rightarrow> (ok, w2)
             | (Inr sent, w2) \<Rightarrow> (ok, w2))"

definition requestVerification :: "env \<Rightarrow> request \<Rightarrow> world \<Rightarrow> response \<times> world" where
  "requestVerification e =
     requestVerification_with
       (\<lambda>w phone vcode. case sendWhatsAppVerificationCode e w phone vcode of
                           (sent, w') \<Rightarrow> (Inr sent, w')) e"

section \<open>The Verifier\<close>

text \<open>
  The identity resolution of \<^verbatim>\<open>verifyCode\<close> (its inner \<^verbatim>\<open>try\<close> and \<^verbatim>\<open>catch\<close>):
  the \<^verbatim>\<open>try\<close> looks the user up by phone number and updates it; the \<^verbatim>\<open>catch\<close>
  creates the user when the error code is one of the two it names, and throws the
  error again otherwise. \<open>Inl\<close> is the error that leaves the block.
  An error of \<^verbatim>\<open>createUser\<close> is thrown inside the \<^verbatim>\<open>catch\<close>, so it leaves the block
  as well. The clock is read a second time for the \<^verbatim>\<open>createdAt\<close> of a new user.
\<close>

definition resolveUser ::
  "env \<Rightarrow> string \<Rightarrow> string \<Rightarrow> string \<Rightarrow> world \<Rightarrow> string + UserRecord \<times> world" where
  "resolveUser e phone firstName lastName w =
     (let dn = firstName @ '' '' @ lastName;
          tried =
            (case getUserByPhoneNumber e (auth w) phone of
               Inl err \<Rightarrow> Inl err
             | Inr userRecord \<Rightarrow>
                 (case updateUser (auth w) (uid userRecord) dn of
                    Inl err \<Rightarrow> Inl err
                  | Inr dir \<Rightarrow>
                      Inr (userRecord,
                           w\<lparr>auth := dir,
                             users := dbChildUpdate (uid userRecord)
                               [(''firstName'', JStr firstName), (''lastName'', JStr lastName),
                                (''displayName'', JStr dn)] (users w)\<rparr>)))
      in case tried of
           Inr found \<Rightarrow> Inr found
         | Inl errorCode \<Rightarrow>
             if errorCode = ''auth/user-not-found'' \<or> errorCode = ''auth/invalid-phone-number''
             then (case createUser e (auth w) dn phone of
                     Inl err \<Rightarrow> Inl err
                   | Inr (userRecord, dir) \<Rightarrow>
                       Inr (userRecord,
                            w\<lparr>auth := dir,
                              users := dbSet (uid userRecord)
                                [(''firstName'', JStr firstName), (''lastName'', JStr lastName),
                                 (''phoneNumber'', JStr phone), (''uid'', JStr (uid userRecord)),
                                 (''role'', JStr ''user''), (''createdAt'', JNum (dateNow e 1))]
                                (users w)\<rparr>))
             else Inl errorCode)"

text \<open>
  \<^verbatim>\<open>verifyCode\<close>. The id is used as one key of the \<^verbatim>\<open>verificationCodes\<close> node.
  The outer \<^verbatim>\<open>catch\<close> answers an error of the identity resolution with status 500,
  and gives its message only in development.
\<close>

definition verifyCode :: "env \<Rightarrow> request \<Rightarrow> world \<Rightarrow> response \<times> world" where
  "verifyCode e req w =
     (if httpMethod req \<noteq> ''POST'' then ((405, ErrorResponse ''Method not allowed'' None), w)
      else
        let codeId = body req ''codeId''; submitted = body req ''code'';
            firstName = body req ''firstName''; lastName = body req ''lastName''
        in
        if \<not> truthy codeId \<or> \<not> truthy submitted
        then ((400, ErrorResponse ''Code ID and verification code are required'' None), w)
        else if \<not> truthy firstName \<or> \<not> truthy lastName
        then ((400, ErrorResponse ''First name and last name are required'' None), w)
        else
          case dbGet (codes w) (strOf codeId) of
            None \<Rightarrow> ((400, ErrorResponse ''Verification code not found'' None), w)
          | Some verificationData \<Rightarrow>
              if expiresAt verificationData < dateNow e 0
              then ((400, ErrorResponse ''Verification code has expired'' None),
                    w\<lparr>codes := dbRemove (strOf codeId) (codes w)\<rparr>)
              else if code verificationData \<noteq> strOf submitted
              then ((400, ErrorResponse ''Incorrect verification code'' None), w)
              else
                case resolveUser e (phoneNumber verificationData)
                       (strOf firstName) (strOf lastName) w of
                  Inl err \<Rightarrow>
                    ((500, ErrorResponse ''Failed to verify code or create user''
                             (if development e then Some (errorMessage e err) else None)), w)
                | Inr (userRecord, w1) \<Rightarrow>
                    ((200, [(''success'', JBool True), (''userId'', JStr (uid userRecord)),
                            (''customToken'', JStr (createCustomToken e (uid userRecord))),
                            (''firstName'', JStr (strOf firstName)),
                            (''lastName'', JStr (strOf lastName))]),
                     w1\<lparr>codes := dbRemove (strOf codeId) (codes w1)\<rparr>))"

section \<open>The Sweeper\<close>

text \<open>
  \<^verbatim>\<open>cleanupExpiredCodes\<close>: the query, the \<^verbatim>\<open>forEach\<close> that sets
  \<^verbatim>\<open>updates[key] = null\<close> for every child of the snapshot, and the one
  \<^verbatim>\<open>update\<close> when \<^verbatim>\<open>updates\<close> has a key.
\<close>

definition cleanupExpiredCodes :: "env \<Rightarrow> world \<Rightarrow> world" where
  "cleanupExpiredCodes e w =
     (let now = dateNow e 0;
          expiredCodesSnap = orderByExpiresAt_endAt now (codes w);
          updates = fold (\<lambda>childSnap u. AList.update (fst childSnap) None u) expiredCodesSnap []
      in if length (map fst updates) > 0
         then w\<lparr>codes := dbUpdate updates (codes w)\<rparr>
         else w)"

section \<open>Requests that pass the Verifier's own checks, and an example\<close>

text \<open>
  A call of the Verifier reaches the record only when it is a POST that carries all
  four fields, each non-empty; every other call is answered before any lookup.
\<close>

definition wellFormed :: "request \<Rightarrow> bool" where
  "wellFormed req = (httpMethod req = ''POST'' \<and> truthy (body req ''codeId'') \<and> truthy (body req ''code'')
      \<and> truthy (body req ''firstName'') \<and> truthy (body req ''lastName''))"

text \<open>
  The record that the Issuer builds (lines 115 to 120 of the source), by name.
\<close>

definition issuedRecord :: "env \<Rightarrow> request \<Rightarrow> VerificationData" where
  "issuedRecord e req =
     \<lparr>phoneNumber = formatPhoneNumber (strOf (body req ''phoneNumber'')),
      code = verificationCode e, expiresAt = dateNow e 0 + 300000, createdAt = dateNow e 1\<rparr>"

text \<open>
  The field \<open>f\<close> of the child \<open>k\<close> of a node of objects, and the users of the
  directory that have a given phone number.
\<close>

definition dbField :: "(string \<times> json) list \<Rightarrow> string \<Rightarrow> string \<Rightarrow> jval option" where
  "dbField node k f = (case dbGet node k of None \<Rightarrow> None | Some obj \<Rightarrow> map_of obj f)"

definition identities :: "world \<Rightarrow> string \<Rightarrow> UserRecord list" where
  "identities w phone = filter (\<lambda>u. userPhone u = phone) (auth w)"

text \<open>A small world, an environment and a request, for evaluating the handlers.\<close>

definition exampleEnv :: "int \<Rightarrow> int \<Rightarrow> env" where
  "exampleEnv t0 t1 =
     \<lparr>dateNow = (\<lambda>n. if n = 0 then t0 else t1), verificationCode = ''123456'',
      pushKey = ''abc123'',
      whatsapp = map_of [(''phone_id'', ''1077''), (''token'', ''secret'')],
      axiosPost = False, development = False,
      validPhone = (\<lambda>p. startsWith p ''+''), newUid = ''u2'',
      createCustomToken = (\<lambda>u. ''token-'' @ u), errorMessage = (\<lambda>c. c)\<rparr>"

definition exampleWorld :: world where
  "exampleWorld =
     \<lparr>codes = [(''abc123'', \<lparr>phoneNumber = ''+712345678'', code = ''123456'',
                            expiresAt = 301000, createdAt = 1000\<rparr>),
               (''old'', \<lparr>phoneNumber = ''+15550100'', code = ''654321'',
                         expiresAt = 500, createdAt = 200\<rparr>)],
      users = [(''u1'', [(''firstName'', JStr ''Ada''), (''lastName'', JStr ''Byron''),
                         (''phoneNumber'', JStr ''+15550100''), (''uid'', JStr ''u1''),
                         (''role'', JStr ''admin''), (''createdAt'', JNum 7)])],
      auth = [\<lparr>uid = ''u1'', userPhone = ''+15550100'', displayName = ''Ada Byron''\<rparr>],
      outbox = []\<rparr>"

definition exampleVerify :: "string \<Rightarrow> string \<Rightarrow> request" where
  "exampleVerify cid c =
     \<lparr>httpMethod = ''POST'',
      body = map_of [(''codeId'', cid), (''code'', c), (''firstName'', ''Grace''),
                     (''lastName'', ''Hopper'')]\<rparr>"

definition exampleRequest :: "string \<Rightarrow> request" where
  "exampleRequest phone = \<lparr>httpMethod = ''POST'', body = map_of [(''phoneNumber'', phone)]\<rparr>"

section \<open>Properties of the phone normaliser\<close>

lemma startsWith_single: "startsWith s [c] = (\<exists>r. s = c # r)"
  by (cases s) (auto simp: startsWith_def)

lemma stripNonDigits_plus: "stripNonDigits (CHR ''+'' # s) = stripNonDigits s"
  by (simp add: stripNonDigits_def isDigit_def)

lemma stripNonDigits_Nil: "stripNonDigits [] = []"
  by (simp add: stripNonDigits_def)

lemma stripNonDigits_idem: "stripNonDigits (stripNonDigits s) = stripNonDigits s"
  by (simp add: stripNonDigits_def)

lemma stripNonDigits_tl: "stripNonDigits s = c # r \<Longrightarrow> stripNonDigits r = r"
proof -
  assume h: "stripNonDigits s = c # r"
  have "\<forall>x \<in> set (stripNonDigits s). isDigit x"
    by (simp add: stripNonDigits_def)
  with h have "\<forall>x \<in> set r. isDigit x" by simp
  then show ?thesis by (simp add: stripNonDigits_def)
qed

lemma canonical_plus_digits: "canonical (CHR ''+'' # stripNonDigits s)"
  by (simp add: canonical_def stripNonDigits_def list_all_iff)

lemma canonical_plus_tl:
  "stripNonDigits s = c # r \<Longrightarrow> canonical (CHR ''+'' # r)"
  using canonical_plus_digits [of r] stripNonDigits_tl [of s c r] by simp

text \<open>
  Claim C2, as the code has it. With \<open>d\<close> the digits of the input: if \<open>d\<close> begins
  with 1 the result is a plus sign and \<open>d\<close>, whether or not the input had a plus sign
  of its own; else if \<open>d\<close> begins with 0 the result is a plus sign and \<open>d\<close> without that
  0; else if the input has no leading plus sign the result is a plus sign and \<open>d\<close>;
  else the result is the input itself. The result always begins with a plus sign; in
  the first three cases it is canonical, in the last it is canonical exactly when the
  input was.
\<close>

theorem formatPhoneNumber_rules:
  "(\<forall>r. stripNonDigits p = CHR ''1'' # r \<longrightarrow> formatPhoneNumber p = CHR ''+'' # CHR ''1'' # r)
   \<and> (\<forall>r. stripNonDigits p = CHR ''0'' # r \<longrightarrow> formatPhoneNumber p = CHR ''+'' # r)
   \<and> (\<not> startsWith (stripNonDigits p) ''1'' \<and> \<not> startsWith (stripNonDigits p) ''0''
        \<and> \<not> startsWith p ''+'' \<longrightarrow> formatPhoneNumber p = CHR ''+'' # stripNonDigits p)
   \<and> (\<not> startsWith (stripNonDigits p) ''1'' \<and> \<not> startsWith (stripNonDigits p) ''0''
        \<and> startsWith p ''+'' \<longrightarrow> formatPhoneNumber p = p)
   \<and> startsWith (formatPhoneNumber p) ''+''
   \<and> (startsWith (stripNonDigits p) ''1'' \<or> startsWith (stripNonDigits p) ''0''
        \<or> \<not> startsWith p ''+'' \<longrightarrow> canonical (formatPhoneNumber p))
   \<and> (canonical p \<longrightarrow> canonical (formatPhoneNumber p))"
proof (intro conjI allI impI)
  fix r assume "stripNonDigits p = CHR ''1'' # r"
  then show "formatPhoneNumber p = CHR ''+'' # CHR ''1'' # r"
    by (simp add: formatPhoneNumber_def startsWith_single)
next
  fix r assume "stripNonDigits p = CHR ''0'' # r"
  then show "formatPhoneNumber p = CHR ''+'' # r"
    by (simp add: formatPhoneNumber_def startsWith_single substring_def)
next
  assume "\<not> startsWith (stripNonDigits p) ''1'' \<and> \<not> startsWith (stripNonDigits p) ''0''
            \<and> \<not> startsWith p ''+''"
  then show "formatPhoneNumber p = CHR ''+'' # stripNonDigits p"
    by (simp add: formatPhoneNumber_def)
next
  assume "\<not> startsWith (stripNonDigits p) ''1'' \<and> \<not> startsWith (stripNonDigits p) ''0''
            \<and> startsWith p ''+''"
  then show "formatPhoneNumber p = p"
    by (simp add: formatPhoneNumber_def)
next
  show "startsWith (formatPhoneNumber p) ''+''"
    by (simp add: formatPhoneNumber_def Let_def) (simp add: startsWith_def)
next
  assume h: "startsWith (stripNonDigits p) ''1'' \<or> startsWith (stripNonDigits p) ''0''
               \<or> \<not> startsWith p ''+''"
  show "canonical (formatPhoneNumber p)"
  proof (cases "startsWith (stripNonDigits p) ''1''")
    case True
    then show ?thesis
      using canonical_plus_digits [of p] by (simp add: formatPhoneNumber_def)
  next
    case one: False
    show ?thesis
    proof (cases "startsWith (stripNonDigits p) ''0''")
      case True
      then obtain r where r: "stripNonDigits p = CHR ''0'' # r"
        by (auto simp: startsWith_single)
      from one True r show ?thesis
        using canonical_plus_tl [OF r]
        by (simp add: formatPhoneNumber_def substring_def)
    next
      case False
      with one h have "\<not> startsWith p ''+''" by simp
      with one False show ?thesis
        using canonical_plus_digits [of p] by (simp add: formatPhoneNumber_def)
    qed
  qed
next
  assume c: "canonical p"
  then obtain ds where p: "p = CHR ''+'' # ds" and ds: "list_all isDigit ds"
    by (auto simp: canonical_def split: list.splits)
  from ds have d: "stripNonDigits p = ds"
    by (simp add: p stripNonDigits_def isDigit_def list_all_iff)
  show "canonical (formatPhoneNumber p)"
  proof (cases "startsWith ds ''1''")
    case True
    with c d p show ?thesis by (simp add: formatPhoneNumber_def)
  next
    case one: False
    show ?thesis
    proof (cases "startsWith ds ''0''")
      case True
      then obtain r where r: "ds = CHR ''0'' # r"
        by (auto simp: startsWith_single)
      with ds have "list_all isDigit r" by simp
      then have "canonical (CHR ''+'' # r)" by (simp add: canonical_def)
      with one True d r show ?thesis
        by (simp add: formatPhoneNumber_def substring_def)
    next
      case False
      with one c d p show ?thesis
        by (simp add: formatPhoneNumber_def startsWith_def)
    qed
  qed
qed

theorem formatPhoneNumber_rules_witness:
  "formatPhoneNumber ''+1 (555) 010'' = ''+1555010''
   \<and> formatPhoneNumber ''0712345678'' = ''+712345678''
   \<and> formatPhoneNumber ''44 20'' = ''+4420''
   \<and> formatPhoneNumber ''+44 20'' = ''+44 20''
   \<and> startsWith (formatPhoneNumber ''+44 20'') ''+''
   \<and> canonical (formatPhoneNumber ''44 20'')
   \<and> canonical ''+4420'' \<and> canonical (formatPhoneNumber ''+4420'')"
proof -
  have d1: "stripNonDigits ''+1 (555) 010'' = ''1555010''"
    and d2: "stripNonDigits ''0712345678'' = ''0712345678''"
    and d3: "stripNonDigits ''44 20'' = ''4420''"
    and d4: "stripNonDigits ''+44 20'' = ''4420''"
    and d5: "stripNonDigits ''+4420'' = ''4420''"
    by (simp_all add: stripNonDigits_def isDigit_def)
  have c: "canonical ''+4420''"
    by (simp add: canonical_def isDigit_def)
  show ?thesis
    using formatPhoneNumber_rules [of "''+1 (555) 010''"]
      formatPhoneNumber_rules [of "''0712345678''"]
      formatPhoneNumber_rules [of "''44 20''"]
      formatPhoneNumber_rules [of "''+44 20''"]
      formatPhoneNumber_rules [of "''+4420''"] c
    by (simp add: d1 d2 d3 d4 d5 startsWith_def)
qed

text \<open>
  Claim C2 as it is written fails twice. On \<open>+1 5\<close> the code applies rule 2 although
  the input has a plus sign of its own, where the rules as worded return the input;
  and on \<open>+4 4\<close> the result keeps the blank, so it is not a plus sign followed by
  digits only.
\<close>

theorem formatPhoneNumber_counterexample:
  "formatPhoneNumber ''+1 5'' = ''+15'' \<and> formatPhoneNumber_spec ''+1 5'' = ''+1 5''
   \<and> formatPhoneNumber ''+4 4'' = ''+4 4'' \<and> \<not> canonical (formatPhoneNumber ''+4 4'')"
  by (simp add: formatPhoneNumber_def formatPhoneNumber_spec_def stripNonDigits_def
      isDigit_def startsWith_def substring_def canonical_def)

text \<open>
  Claim C8, as the code has it: normalising twice gives the same as normalising once
  exactly for the inputs whose digits do not begin with two zeros.
\<close>

theorem formatPhoneNumber_idempotent_iff:
  "(formatPhoneNumber (formatPhoneNumber p) = formatPhoneNumber p)
     = (\<not> startsWith (stripNonDigits p) ''00'')"
proof (cases "stripNonDigits p")
  case Nil
  then show ?thesis
    by (cases "startsWith p ''+''")
      (auto simp: formatPhoneNumber_def startsWith_def stripNonDigits_plus
        stripNonDigits_Nil Let_def)
next
  case (Cons c r)
  have r: "stripNonDigits r = r"
    using stripNonDigits_tl [OF Cons] .
  have cr: "stripNonDigits (c # r) = c # r"
    using stripNonDigits_idem [of p] Cons by simp
  show ?thesis
  proof (cases "c = CHR ''1''")
    case True
    with Cons cr show ?thesis
      by (simp add: formatPhoneNumber_def startsWith_def stripNonDigits_plus)
  next
    case one: False
    show ?thesis
    proof (cases "c = CHR ''0''")
      case True
      with Cons one r show ?thesis
        by (cases r)
          (auto simp: formatPhoneNumber_def startsWith_def stripNonDigits_plus
            substring_def Let_def)
    next
      case False
      with Cons one cr show ?thesis
        by (cases "startsWith p ''+''")
          (auto simp: formatPhoneNumber_def startsWith_def stripNonDigits_plus Let_def)
    qed
  qed
qed

theorem formatPhoneNumber_idempotent_iff_witness:
  "formatPhoneNumber (formatPhoneNumber ''(0) 712-345'') = formatPhoneNumber ''(0) 712-345''
   \<and> \<not> startsWith (stripNonDigits ''(0) 712-345'') ''00''"
proof -
  have d: "stripNonDigits ''(0) 712-345'' = ''0712345''"
    by (simp add: stripNonDigits_def isDigit_def)
  show ?thesis
    using formatPhoneNumber_idempotent_iff [of "''(0) 712-345''"]
    by (simp add: d startsWith_def)
qed

text \<open>
  Claim C8 as it is written fails on the international dialling prefix: \<open>0044\<close>
  becomes \<open>+044\<close>, and that becomes \<open>+44\<close>.
\<close>

theorem formatPhoneNumber_idempotent_counterexample:
  "formatPhoneNumber ''0044'' = ''+044''
   \<and> formatPhoneNumber (formatPhoneNumber ''0044'') = ''+44''
   \<and> formatPhoneNumber (formatPhoneNumber ''0044'') \<noteq> formatPhoneNumber ''0044''"
  by (simp add: formatPhoneNumber_def stripNonDigits_def isDigit_def startsWith_def
      substring_def)

section \<open>Properties of the store and the Verifier\<close>

lemma dbGet_dbRemove_same: "dbGet (dbRemove k node) k = None"
  by (simp add: dbGet_def dbRemove_def delete_conv')

lemma dbGet_dbRemove_other: "k' \<noteq> k \<Longrightarrow> dbGet (dbRemove k node) k' = dbGet node k'"
  by (simp add: dbGet_def dbRemove_def)

lemma dbGet_dbSet: "dbGet (dbSet k v node) k' = (if k' = k then Some v else dbGet node k')"
  by (simp add: dbGet_def dbSet_def update_conv')

lemma verifyCode_wellFormed:
  "wellFormed req \<Longrightarrow> verifyCode e req w =
     (case dbGet (codes w) (strOf (body req ''codeId'')) of
            None \<Rightarrow> ((400, ErrorResponse ''Verification code not found'' None), w)
          | Some verificationData \<Rightarrow>
              if expiresAt verificationData < dateNow e 0
              then ((400, ErrorResponse ''Verification code has expired'' None),
                    w\<lparr>codes := dbRemove (strOf (body req ''codeId'')) (codes w)\<rparr>)
              else if code verificationData \<noteq> strOf (body req ''code'')
              then ((400, ErrorResponse ''Incorrect verification code'' None), w)
              else
                case resolveUser e (phoneNumber verificationData)
                       (strOf (body req ''firstName'')) (strOf (body req ''lastName'')) w of
                  Inl err \<Rightarrow>
                    ((500, ErrorResponse ''Failed to verify code or create user''
                             (if development e then Some (errorMessage e err) else None)), w)
                | Inr (userRecord, w1) \<Rightarrow>
                    ((200, [(''success'', JBool True), (''userId'', JStr (uid userRecord)),
                            (''customToken'', JStr (createCustomToken e (uid userRecord))),
                            (''firstName'', JStr (strOf (body req ''firstName''))),
                            (''lastName'', JStr (strOf (body req ''lastName'')))]),
                     w1\<lparr>codes := dbRemove (strOf (body req ''codeId'')) (codes w1)\<rparr>))"
  by (simp add: wellFormed_def verifyCode_def Let_def)

lemma verifyCode_not_wellFormed:
  "\<not> wellFormed req \<Longrightarrow> fst (fst (verifyCode e req w)) \<in> {400, 405} \<and> snd (verifyCode e req w) = w"
  by (auto simp: wellFormed_def verifyCode_def Let_def)

lemma verifyCode_success:
  assumes "verifyCode e req w = (resp, w')" and "fst resp = 200"
  shows "wellFormed req \<and>
     (\<exists>v u w1. dbGet (codes w) (strOf (body req ''codeId'')) = Some v
        \<and> \<not> expiresAt v < dateNow e 0 \<and> code v = strOf (body req ''code'')
        \<and> resolveUser e (phoneNumber v) (strOf (body req ''firstName''))
              (strOf (body req ''lastName'')) w = Inr (u, w1)
        \<and> w' = w1\<lparr>codes := dbRemove (strOf (body req ''codeId'')) (codes w1)\<rparr>
        \<and> map_of (snd resp) ''userId'' = Some (JStr (uid u)))"
proof -
  have wf: "wellFormed req"
  proof (rule ccontr)
    assume "\<not> wellFormed req"
    from verifyCode_not_wellFormed [OF this, of e w] assms show False by simp
  qed
  from assms show ?thesis
    unfolding verifyCode_wellFormed [OF wf]
    by (auto simp: wf split: option.splits if_splits sum.splits)
qed

lemma verifyCode_successE:
  assumes "verifyCode e req w = (resp, w')" and "fst resp = 200"
  obtains v u w1 where "dbGet (codes w) (strOf (body req ''codeId'')) = Some v"
    and "resolveUser e (phoneNumber v) (strOf (body req ''firstName''))
           (strOf (body req ''lastName'')) w = Inr (u, w1)"
    and "w' = w1\<lparr>codes := dbRemove (strOf (body req ''codeId'')) (codes w1)\<rparr>"
    and "map_of (snd resp) ''userId'' = Some (JStr (uid u))"
  using verifyCode_success [OF assms] by (elim conjE exE) (rule that)

section \<open>Properties of the Sweeper's query and update\<close>

lemma set_orderByExpiresAt_endAt:
  "set (orderByExpiresAt_endAt t node) =
     {kv. map_of node (fst kv) = Some (snd kv) \<and> expiresAt (snd kv) \<le> t}"
proof -
  have "set (AList.clearjunk node) = {kv. map_of node (fst kv) = Some (snd kv)}"
    using graph_map_of [of node] by (auto simp: Map.graph_def)
  then show ?thesis
    by (auto simp: orderByExpiresAt_endAt_def)
qed

lemma key_in_orderByExpiresAt_endAt:
  "k \<in> fst ` set (orderByExpiresAt_endAt t node)
     \<longleftrightarrow> (\<exists>v. map_of node k = Some v \<and> expiresAt v \<le> t)"
proof
  assume "k \<in> fst ` set (orderByExpiresAt_endAt t node)"
  then obtain kv where "kv \<in> set (orderByExpiresAt_endAt t node)" and "fst kv = k"
    by auto
  then have "map_of node k = Some (snd kv) \<and> expiresAt (snd kv) \<le> t"
    by (simp add: set_orderByExpiresAt_endAt)
  then show "\<exists>v. map_of node k = Some v \<and> expiresAt v \<le> t" ..
next
  assume "\<exists>v. map_of node k = Some v \<and> expiresAt v \<le> t"
  then obtain v where "map_of node k = Some v" and "expiresAt v \<le> t" by auto
  then have "(k, v) \<in> set (orderByExpiresAt_endAt t node)"
    by (simp add: set_orderByExpiresAt_endAt)
  then show "k \<in> fst ` set (orderByExpiresAt_endAt t node)"
    by (metis fst_conv imageI)
qed

lemma set_update_subset: "set (AList.update k v al) \<subseteq> insert (k, v) (set al)"
  by (induction al) auto

lemma fold_null_keys:
  "fst ` set (fold (\<lambda>c u. AList.update (fst c) None u) xs acc) = fst ` set xs \<union> fst ` set acc"
  by (induction xs arbitrary: acc) (auto simp: dom_update)

lemma fold_null_values:
  "\<forall>kv \<in> set acc. snd kv = None \<Longrightarrow>
   \<forall>kv \<in> set (fold (\<lambda>c u. AList.update (fst c) None u) xs acc). snd kv = None"
proof (induction xs arbitrary: acc)
  case Nil
  then show ?case by simp
next
  case (Cons x xs)
  have "\<forall>kv \<in> set (AList.update (fst x) None acc). snd kv = None"
    using Cons.prems set_update_subset [of "fst x" None acc] by auto
  from Cons.IH [OF this] show ?case by simp
qed

lemma dbUpdate_nulls:
  "\<forall>kv \<in> set upd. snd kv = None \<Longrightarrow>
   map_of (dbUpdate upd node) k = (if k \<in> fst ` set upd then None else map_of node k)"
proof (induction upd arbitrary: node)
  case Nil
  then show ?case by (simp add: dbUpdate_def)
next
  case (Cons u upd)
  from Cons.prems have u: "snd u = None" and rest: "\<forall>kv \<in> set upd. snd kv = None"
    by simp_all
  have step: "dbUpdate (u # upd) node = dbUpdate upd (dbRemove (fst u) node)"
    by (simp add: dbUpdate_def dbWrite_def u)
  show ?case
    unfolding step Cons.IH [OF rest]
    by (auto simp: dbRemove_def delete_conv')
qed

lemma cleanupExpiredCodes_lookup:
  "dbGet (codes (cleanupExpiredCodes e w)) k =
     (case dbGet (codes w) k of
        None \<Rightarrow> None
      | Some v \<Rightarrow> if expiresAt v \<le> dateNow e 0 then None else Some v)"
proof -
  let ?q = "orderByExpiresAt_endAt (dateNow e 0) (codes w)"
  let ?u = "fold (\<lambda>childSnap u. AList.update (fst childSnap) (None :: VerificationData option) u) ?q []"
  have keys: "fst ` set ?u = fst ` set ?q"
    using fold_null_keys [of ?q "[]"] by simp
  have vals: "\<forall>kv \<in> set ?u. snd kv = None"
    using fold_null_values [of "[]" ?q] by simp
  have mem: "k \<in> fst ` set ?q \<longleftrightarrow> (\<exists>v. map_of (codes w) k = Some v \<and> expiresAt v \<le> dateNow e 0)"
    by (rule key_in_orderByExpiresAt_endAt)
  have upd: "map_of (dbUpdate ?u (codes w)) k
               = (if k \<in> fst ` set ?q then None else map_of (codes w) k)"
    using dbUpdate_nulls [OF vals, of "codes w" k] by (simp only: keys)
  have goal: "(if k \<in> fst ` set ?q then None else map_of (codes w) k)
               = (case map_of (codes w) k of None \<Rightarrow> None
                  | Some v \<Rightarrow> if expiresAt v \<le> dateNow e 0 then None else Some v)"
    unfolding mem by (cases "map_of (codes w) k") simp_all
  show ?thesis
  proof (cases "?u = []")
    case True
    from True have "fst ` set ?u = {}" by simp
    with keys have "fst ` set ?q = {}" by simp
    then have "k \<notin> fst ` set ?q" by simp
    with goal have "map_of (codes w) k
               = (case map_of (codes w) k of None \<Rightarrow> None
                  | Some v \<Rightarrow> if expiresAt v \<le> dateNow e 0 then None else Some v)"
      by simp
    moreover from True have "cleanupExpiredCodes e w = w"
      by (simp add: cleanupExpiredCodes_def Let_def)
    ultimately show ?thesis by (simp add: dbGet_def)
  next
    case False
    then have "codes (cleanupExpiredCodes e w) = dbUpdate ?u (codes w)"
      by (simp add: cleanupExpiredCodes_def Let_def)
    with upd goal show ?thesis by (simp add: dbGet_def)
  qed
qed

lemma cleanupExpiredCodes_frame:
  "users (cleanupExpiredCodes e w) = users w \<and> auth (cleanupExpiredCodes e w) = auth w
   \<and> outbox (cleanupExpiredCodes e w) = outbox w"
  by (simp add: cleanupExpiredCodes_def Let_def)

lemma orderByExpiresAt_endAt_empty:
  assumes "\<forall>k v. dbGet (codes w) k = Some v \<longrightarrow> dateNow e 0 < expiresAt v"
  shows "orderByExpiresAt_endAt (dateNow e 0) (codes w) = []"
proof (cases "orderByExpiresAt_endAt (dateNow e 0) (codes w)")
  case Nil
  then show ?thesis .
next
  case (Cons kv rest)
  then have "kv \<in> set (orderByExpiresAt_endAt (dateNow e 0) (codes w))" by simp
  then have "map_of (codes w) (fst kv) = Some (snd kv)" and "expiresAt (snd kv) \<le> dateNow e 0"
    by (simp_all add: set_orderByExpiresAt_endAt)
  moreover have "dbGet (codes w) (fst kv) = Some (snd kv) \<longrightarrow> dateNow e 0 < expiresAt (snd kv)"
    using assms by (elim allE)
  ultimately have False by (simp add: dbGet_def)
  then show ?thesis ..
qed

lemma cleanupExpiredCodes_noop:
  assumes "\<forall>k v. dbGet (codes w) k = Some v \<longrightarrow> dateNow e 0 < expiresAt v"
  shows "cleanupExpiredCodes e w = w"
  using orderByExpiresAt_endAt_empty [OF assms]
  by (simp add: cleanupExpiredCodes_def Let_def)

section \<open>The claims about Verifier and Sweeper\<close>

lemmas example_defs = exampleEnv_def exampleWorld_def exampleVerify_def wellFormed_def
  truthy_def strOf_def dbGet_def dbRemove_def dbSet_def ErrorResponse_def

text \<open>
  Claim C4. A call that reaches a record whose \<open>expiresAt\<close> is strictly less than the
  reading of the clock is answered with status 400 and the error "Verification code has
  expired", and the world it leaves has no record under that id. Nothing is assumed about
  the Sweeper: the world \<open>w\<close> is any world that holds the record.
\<close>

theorem verifyCode_expired:
  assumes "wellFormed req"
    and "dbGet (codes w) (strOf (body req ''codeId'')) = Some v"
    and "expiresAt v < dateNow e 0"
  shows "verifyCode e req w =
           ((400, ErrorResponse ''Verification code has expired'' None),
            w\<lparr>codes := dbRemove (strOf (body req ''codeId'')) (codes w)\<rparr>)
         \<and> dbGet (codes (snd (verifyCode e req w))) (strOf (body req ''codeId'')) = None"
  using assms by (simp add: verifyCode_wellFormed dbGet_dbRemove_same)

text \<open>The record \<open>old\<close> of the example expires at 500 and is verified at 501.\<close>

theorem verifyCode_expired_witness:
  "wellFormed (exampleVerify ''old'' ''654321'')
   \<and> dbGet (codes exampleWorld) ''old''
       = Some \<lparr>phoneNumber = ''+15550100'', code = ''654321'', expiresAt = 500, createdAt = 200\<rparr>
   \<and> fst (verifyCode (exampleEnv 501 501) (exampleVerify ''old'' ''654321'') exampleWorld)
       = (400, ErrorResponse ''Verification code has expired'' None)
   \<and> dbGet (codes (snd (verifyCode (exampleEnv 501 501) (exampleVerify ''old'' ''654321'')
        exampleWorld))) ''old'' = None"
proof -
  have wf: "wellFormed (exampleVerify ''old'' ''654321'')"
    by (simp add: example_defs)
  have cid: "strOf (body (exampleVerify ''old'' ''654321'') ''codeId'') = ''old''"
    by (simp add: example_defs)
  have rec: "dbGet (codes exampleWorld) (strOf (body (exampleVerify ''old'' ''654321'') ''codeId''))
       = Some \<lparr>phoneNumber = ''+15550100'', code = ''654321'', expiresAt = 500, createdAt = 200\<rparr>"
    by (simp add: example_defs)
  have old: "expiresAt \<lparr>phoneNumber = ''+15550100'', code = ''654321'', expiresAt = 500,
       createdAt = 200\<rparr> < dateNow (exampleEnv 501 501) 0"
    by (simp add: example_defs)
  show ?thesis
    using verifyCode_expired [OF wf rec old] wf rec by (simp add: cid dbGet_dbRemove_same)
qed

text \<open>
  Claim C5. A call that reaches a record that has not expired, with a code that differs
  from the stored one, is answered with status 400 and the error "Incorrect verification
  code", and the world is unchanged. So a later call with the stored code, at any time
  that is not past the expiry, gets through the checks again: its status is 200 when the
  identity resolution succeeds and 500 when the identity provider refuses.
\<close>

theorem verifyCode_incorrect:
  assumes "wellFormed req"
    and "dbGet (codes w) (strOf (body req ''codeId'')) = Some v"
    and "\<not> expiresAt v < dateNow e 0"
    and "code v \<noteq> strOf (body req ''code'')"
  shows "verifyCode e req w = ((400, ErrorResponse ''Incorrect verification code'' None), w)
         \<and> (\<forall>e' req'. wellFormed req'
               \<and> strOf (body req' ''codeId'') = strOf (body req ''codeId'')
               \<and> strOf (body req' ''code'') = code v \<and> \<not> expiresAt v < dateNow e' 0
             \<longrightarrow> fst (fst (verifyCode e' req' (snd (verifyCode e req w))))
                   = (case resolveUser e' (phoneNumber v) (strOf (body req' ''firstName''))
                             (strOf (body req' ''lastName'')) w of
                        Inl err \<Rightarrow> 500 | Inr done \<Rightarrow> 200))"
proof (intro conjI allI impI)
  show first: "verifyCode e req w = ((400, ErrorResponse ''Incorrect verification code'' None), w)"
    using assms by (simp add: verifyCode_wellFormed)
  fix e' :: env and req' :: request
  assume again: "wellFormed req' \<and> strOf (body req' ''codeId'') = strOf (body req ''codeId'')
     \<and> strOf (body req' ''code'') = code v \<and> \<not> expiresAt v < dateNow e' 0"
  then have wf: "wellFormed req'" by simp
  from again assms(2) show "fst (fst (verifyCode e' req' (snd (verifyCode e req w))))
       = (case resolveUser e' (phoneNumber v) (strOf (body req' ''firstName''))
                 (strOf (body req' ''lastName'')) w of
            Inl err \<Rightarrow> 500 | Inr done \<Rightarrow> 200)"
    unfolding first verifyCode_wellFormed [OF wf]
    by (simp split: sum.splits prod.splits)
qed

text \<open>
  Claim C1. When a call of the Verifier returns status 200, it has found a record under
  the id with the submitted code, the world it leaves has no record under that id, and a
  second call with the same request in that world, whatever its environment, is answered
  with status 400 and the error "Verification code not found" and changes nothing.
\<close>

theorem verifyCode_single_use:
  assumes "verifyCode e req w = (resp, w')" and "fst resp = 200"
  shows "(\<exists>v. dbGet (codes w) (strOf (body req ''codeId'')) = Some v
              \<and> code v = strOf (body req ''code''))
         \<and> dbGet (codes w') (strOf (body req ''codeId'')) = None
         \<and> verifyCode (e' :: env) req w' = ((400, ErrorResponse ''Verification code not found'' None), w')"
proof -
  from verifyCode_success [OF assms] obtain v u w1 where
    wf: "wellFormed req"
    and v: "dbGet (codes w) (strOf (body req ''codeId'')) = Some v"
    and c: "code v = strOf (body req ''code'')"
    and w': "w' = w1\<lparr>codes := dbRemove (strOf (body req ''codeId'')) (codes w1)\<rparr>"
    by auto
  from w' have gone: "dbGet (codes w') (strOf (body req ''codeId'')) = None"
    by (simp add: dbGet_dbRemove_same)
  then have "verifyCode e' req w' = ((400, ErrorResponse ''Verification code not found'' None), w')"
    by (simp add: verifyCode_wellFormed [OF wf])
  with v c gone show ?thesis by simp
qed

text \<open>
  Claim C10. For a record whose \<open>expiresAt\<close> equals the reading of the clock, a call of
  the Verifier with the stored code is not answered as expired: it goes on to the
  identity resolution, with status 200 when that succeeds. A run of the Sweeper at the
  same reading deletes the record.
\<close>

theorem expiry_boundary:
  assumes "wellFormed req"
    and "dbGet (codes w) (strOf (body req ''codeId'')) = Some v"
    and "expiresAt v = dateNow e 0"
    and "code v = strOf (body req ''code'')"
  shows "fst (verifyCode e req w) \<noteq> (400, ErrorResponse ''Verification code has expired'' None)
         \<and> fst (fst (verifyCode e req w))
             = (case resolveUser e (phoneNumber v) (strOf (body req ''firstName''))
                       (strOf (body req ''lastName'')) w of
                  Inl err \<Rightarrow> 500 | Inr done \<Rightarrow> 200)
         \<and> dbGet (codes (cleanupExpiredCodes e w)) (strOf (body req ''codeId'')) = None"
proof -
  have status: "fst (fst (verifyCode e req w))
             = (case resolveUser e (phoneNumber v) (strOf (body req ''firstName''))
                       (strOf (body req ''lastName'')) w of
                  Inl err \<Rightarrow> 500 | Inr done \<Rightarrow> 200)"
    using assms(2-4) unfolding verifyCode_wellFormed [OF assms(1)]
    by (simp split: sum.splits prod.splits)
  then have "fst (fst (verifyCode e req w)) \<noteq> 400"
    by (simp split: sum.splits)
  then have "fst (verifyCode e req w) \<noteq> (400, ErrorResponse ''Verification code has expired'' None)"
    by auto
  moreover have "dbGet (codes (cleanupExpiredCodes e w)) (strOf (body req ''codeId'')) = None"
    using assms(2,3) by (simp add: cleanupExpiredCodes_lookup)
  ultimately show ?thesis using status by simp
qed

lemmas eval_defs = example_defs verifyCode_def resolveUser_def getUserByPhoneNumber_def
  updateUser_def createUser_def startsWith_def dbChildUpdate_def dbUpdate_def dbWrite_def
  Let_def

lemma example_first_call:
  "verifyCode (exampleEnv t0 t1) (exampleVerify ''abc123'' ''123456'') exampleWorld =
     (if 301000 < t0
      then ((400, ErrorResponse ''Verification code has expired'' None),
            exampleWorld\<lparr>codes := dbRemove ''abc123'' (codes exampleWorld)\<rparr>)
      else ((200, [(''success'', JBool True), (''userId'', JStr ''u2''),
              (''customToken'', JStr ''token-u2''), (''firstName'', JStr ''Grace''),
              (''lastName'', JStr ''Hopper'')]),
            exampleWorld\<lparr>
              codes := dbRemove ''abc123'' (codes exampleWorld),
              users := dbSet ''u2'' [(''firstName'', JStr ''Grace''), (''lastName'', JStr ''Hopper''),
                 (''phoneNumber'', JStr ''+712345678''), (''uid'', JStr ''u2''),
                 (''role'', JStr ''user''), (''createdAt'', JNum t1)] (users exampleWorld),
              auth := auth exampleWorld @
                 [\<lparr>uid = ''u2'', userPhone = ''+712345678'', displayName = ''Grace Hopper''\<rparr>]\<rparr>))"
  by (simp add: eval_defs)

theorem verifyCode_single_use_witness:
  "fst (fst (verifyCode (exampleEnv 2000 2001) (exampleVerify ''abc123'' ''123456'') exampleWorld)) = 200
   \<and> verifyCode (exampleEnv 2500 2501) (exampleVerify ''abc123'' ''123456'')
        (snd (verifyCode (exampleEnv 2000 2001) (exampleVerify ''abc123'' ''123456'') exampleWorld))
      = ((400, ErrorResponse ''Verification code not found'' None),
         snd (verifyCode (exampleEnv 2000 2001) (exampleVerify ''abc123'' ''123456'') exampleWorld))"
proof -
  let ?first = "verifyCode (exampleEnv 2000 2001) (exampleVerify ''abc123'' ''123456'') exampleWorld"
  have ok: "fst (fst ?first) = 200"
    by (simp add: example_first_call)
  have "?first = (fst ?first, snd ?first)" by simp
  from verifyCode_single_use [OF this ok, of "exampleEnv 2500 2501"] ok
  show ?thesis by simp
qed

theorem verifyCode_incorrect_witness:
  "wellFormed (exampleVerify ''abc123'' ''000000'')
   \<and> fst (verifyCode (exampleEnv 2000 2001) (exampleVerify ''abc123'' ''000000'') exampleWorld)
       = (400, ErrorResponse ''Incorrect verification code'' None)
   \<and> snd (verifyCode (exampleEnv 2000 2001) (exampleVerify ''abc123'' ''000000'') exampleWorld)
       = exampleWorld
   \<and> fst (fst (verifyCode (exampleEnv 3000 3001) (exampleVerify ''abc123'' ''123456'')
        (snd (verifyCode (exampleEnv 2000 2001) (exampleVerify ''abc123'' ''000000'') exampleWorld))))
       = 200"
proof -
  let ?v = "\<lparr>phoneNumber = ''+712345678'', code = ''123456'', expiresAt = 301000,
    createdAt = 1000\<rparr>"
  have wf: "wellFormed (exampleVerify ''abc123'' ''000000'')"
    and wf': "wellFormed (exampleVerify ''abc123'' ''123456'')"
    by (simp_all add: example_defs)
  have rec: "dbGet (codes exampleWorld) (strOf (body (exampleVerify ''abc123'' ''000000'') ''codeId''))
       = Some ?v"
    by (simp add: example_defs)
  have live: "\<not> expiresAt ?v < dateNow (exampleEnv 2000 2001) 0"
    and live': "\<not> expiresAt ?v < dateNow (exampleEnv 3000 3001) 0"
    by (simp_all add: example_defs)
  have wrong: "code ?v \<noteq> strOf (body (exampleVerify ''abc123'' ''000000'') ''code'')"
    by (simp add: example_defs)
  have same: "strOf (body (exampleVerify ''abc123'' ''123456'') ''codeId'')
       = strOf (body (exampleVerify ''abc123'' ''000000'') ''codeId'')"
    and right: "strOf (body (exampleVerify ''abc123'' ''123456'') ''code'') = code ?v"
    by (simp_all add: example_defs)
  have res: "resolveUser (exampleEnv 3000 3001) (phoneNumber ?v)
       (strOf (body (exampleVerify ''abc123'' ''123456'') ''firstName''))
       (strOf (body (exampleVerify ''abc123'' ''123456'') ''lastName'')) exampleWorld
       \<noteq> Inl err" for err
    by (simp add: eval_defs)
  from verifyCode_incorrect [OF wf rec live wrong]
  have first: "verifyCode (exampleEnv 2000 2001) (exampleVerify ''abc123'' ''000000'') exampleWorld
        = ((400, ErrorResponse ''Incorrect verification code'' None), exampleWorld)"
    and again: "fst (fst (verifyCode (exampleEnv 3000 3001) (exampleVerify ''abc123'' ''123456'')
        (snd (verifyCode (exampleEnv 2000 2001) (exampleVerify ''abc123'' ''000000'') exampleWorld))))
       = (case resolveUser (exampleEnv 3000 3001) (phoneNumber ?v)
             (strOf (body (exampleVerify ''abc123'' ''123456'') ''firstName''))
             (strOf (body (exampleVerify ''abc123'' ''123456'') ''lastName'')) exampleWorld of
            Inl err \<Rightarrow> 500 | Inr done \<Rightarrow> 200)"
    using wf' same right live' by blast+
  from again res have "fst (fst (verifyCode (exampleEnv 3000 3001) (exampleVerify ''abc123'' ''123456'')
        (snd (verifyCode (exampleEnv 2000 2001) (exampleVerify ''abc123'' ''000000'') exampleWorld))))
       = 200"
    by (simp split: sum.splits)
  with wf first show ?thesis by simp
qed

theorem expiry_boundary_witness:
  "wellFormed (exampleVerify ''abc123'' ''123456'')
   \<and> dbGet (codes exampleWorld) ''abc123''
       = Some \<lparr>phoneNumber = ''+712345678'', code = ''123456'', expiresAt = 301000, createdAt = 1000\<rparr>
   \<and> dateNow (exampleEnv 301000 301000) 0 = 301000
   \<and> fst (fst (verifyCode (exampleEnv 301000 301000) (exampleVerify ''abc123'' ''123456'')
        exampleWorld)) = 200
   \<and> dbGet (codes (cleanupExpiredCodes (exampleEnv 301000 301000) exampleWorld)) ''abc123'' = None"
proof -
  let ?v = "\<lparr>phoneNumber = ''+712345678'', code = ''123456'', expiresAt = 301000,
    createdAt = 1000\<rparr>"
  have wf: "wellFormed (exampleVerify ''abc123'' ''123456'')"
    by (simp add: example_defs)
  have cid: "strOf (body (exampleVerify ''abc123'' ''123456'') ''codeId'') = ''abc123''"
    by (simp add: example_defs)
  have rec: "dbGet (codes exampleWorld) (strOf (body (exampleVerify ''abc123'' ''123456'') ''codeId''))
       = Some ?v"
    by (simp add: example_defs)
  have edge: "expiresAt ?v = dateNow (exampleEnv 301000 301000) 0"
    by (simp add: example_defs)
  have right: "code ?v = strOf (body (exampleVerify ''abc123'' ''123456'') ''code'')"
    by (simp add: example_defs)
  have ok: "fst (fst (verifyCode (exampleEnv 301000 301000) (exampleVerify ''abc123'' ''123456'')
        exampleWorld)) = 200"
    by (simp add: example_first_call)
  from expiry_boundary [OF wf rec edge right] wf rec edge ok
  show ?thesis by (simp add: cid)
qed

text \<open>
  Claim C6. After a run of the Sweeper at the reading \<open>dateNow e 0\<close>, a key holds a
  record exactly when it held one before with a later \<open>expiresAt\<close>, and then it is the
  same record; the users, the directory and the sent messages are untouched; and when
  no record has \<open>expiresAt\<close> at or before the reading, the world is the same as before.
\<close>

theorem cleanupExpiredCodes_exact:
  "(\<forall>k. dbGet (codes (cleanupExpiredCodes e w)) k =
          (case dbGet (codes w) k of
             None \<Rightarrow> None
           | Some v \<Rightarrow> if expiresAt v \<le> dateNow e 0 then None else Some v))
   \<and> users (cleanupExpiredCodes e w) = users w
   \<and> auth (cleanupExpiredCodes e w) = auth w
   \<and> outbox (cleanupExpiredCodes e w) = outbox w
   \<and> ((\<forall>k v. dbGet (codes w) k = Some v \<longrightarrow> dateNow e 0 < expiresAt v)
        \<longrightarrow> cleanupExpiredCodes e w = w)"
  using cleanupExpiredCodes_lookup [of e w] cleanupExpiredCodes_frame [of e w]
    cleanupExpiredCodes_noop [of w e]
  by simp

theorem cleanupExpiredCodes_exact_witness:
  "dbGet (codes (cleanupExpiredCodes (exampleEnv 1000 1000) exampleWorld)) ''old'' = None
   \<and> dbGet (codes (cleanupExpiredCodes (exampleEnv 1000 1000) exampleWorld)) ''abc123''
       = Some \<lparr>phoneNumber = ''+712345678'', code = ''123456'', expiresAt = 301000, createdAt = 1000\<rparr>
   \<and> cleanupExpiredCodes (exampleEnv 100 100) exampleWorld = exampleWorld"
proof -
  have live: "\<forall>k v. dbGet (codes exampleWorld) k = Some v
                \<longrightarrow> dateNow (exampleEnv 100 100) 0 < expiresAt v"
    by (auto simp: example_defs split: if_splits)
  have now: "dateNow (exampleEnv 1000 1000) 0 = 1000"
    by (simp add: example_defs)
  have recs: "dbGet (codes exampleWorld) ''old''
        = Some \<lparr>phoneNumber = ''+15550100'', code = ''654321'', expiresAt = 500, createdAt = 200\<rparr>"
    "dbGet (codes exampleWorld) ''abc123''
        = Some \<lparr>phoneNumber = ''+712345678'', code = ''123456'', expiresAt = 301000, createdAt = 1000\<rparr>"
    by (simp_all add: example_defs)
  from cleanupExpiredCodes_exact [of "exampleEnv 1000 1000" exampleWorld]
    cleanupExpiredCodes_exact [of "exampleEnv 100 100" exampleWorld] live
  show ?thesis by (simp add: now recs)
qed

section \<open>The claims about the Issuer\<close>

lemma sendWhatsAppVerificationCode_codes:
  "codes (snd (sendWhatsAppVerificationCode e w phone vcode)) = codes w"
  by (simp add: sendWhatsAppVerificationCode_def Let_def)

lemma requestVerification_with_accepted:
  assumes "httpMethod req = ''POST''" and "truthy (body req ''phoneNumber'')"
  shows "requestVerification_with deliver e req w =
           ((200, [(''success'', JBool True), (''codeId'', JStr (pushKey e))]),
            snd (deliver (w\<lparr>codes := dbSet (pushKey e) (issuedRecord e req) (codes w)\<rparr>)
                   (phoneNumber (issuedRecord e req)) (code (issuedRecord e req))))"
  using assms
  by (simp add: requestVerification_with_def issuedRecord_def Let_def
      split: prod.splits sum.splits)

lemma requestVerification_accepted:
  assumes "httpMethod req = ''POST''" and "truthy (body req ''phoneNumber'')"
  shows "requestVerification e req w =
           ((200, [(''success'', JBool True), (''codeId'', JStr (pushKey e))]),
            snd (sendWhatsAppVerificationCode e
                   (w\<lparr>codes := dbSet (pushKey e) (issuedRecord e req) (codes w)\<rparr>)
                   (phoneNumber (issuedRecord e req)) (code (issuedRecord e req))))"
  unfolding requestVerification_def requestVerification_with_accepted [OF assms]
  by (simp split: prod.splits)

text \<open>
  Claim C3. For a POST with a non-empty phone number: the delivery step is given a world
  that already holds the record under the new id; whatever the delivery step returns or
  throws, the response is status 200 with that id; and with the delivery of the source
  the record is still there when the handler returns.
\<close>

theorem requestVerification_persists_first:
  assumes "httpMethod req = ''POST''" and "truthy (body req ''phoneNumber'')"
  shows "dbGet (codes (w\<lparr>codes := dbSet (pushKey e) (issuedRecord e req) (codes w)\<rparr>)) (pushKey e)
           = Some (issuedRecord e req)
         \<and> requestVerification_with deliver e req w =
             ((200, [(''success'', JBool True), (''codeId'', JStr (pushKey e))]),
              snd (deliver (w\<lparr>codes := dbSet (pushKey e) (issuedRecord e req) (codes w)\<rparr>)
                     (phoneNumber (issuedRecord e req)) (code (issuedRecord e req))))
         \<and> fst (requestVerification e req w)
             = (200, [(''success'', JBool True), (''codeId'', JStr (pushKey e))])
         \<and> dbGet (codes (snd (requestVerification e req w))) (pushKey e) = Some (issuedRecord e req)"
proof (intro conjI)
  show "dbGet (codes (w\<lparr>codes := dbSet (pushKey e) (issuedRecord e req) (codes w)\<rparr>)) (pushKey e)
           = Some (issuedRecord e req)"
    by (simp add: dbGet_dbSet)
  show "requestVerification_with deliver e req w =
             ((200, [(''success'', JBool True), (''codeId'', JStr (pushKey e))]),
              snd (deliver (w\<lparr>codes := dbSet (pushKey e) (issuedRecord e req) (codes w)\<rparr>)
                     (phoneNumber (issuedRecord e req)) (code (issuedRecord e req))))"
    by (rule requestVerification_with_accepted [OF assms])
  show "fst (requestVerification e req w)
             = (200, [(''success'', JBool True), (''codeId'', JStr (pushKey e))])"
    by (simp add: requestVerification_accepted [OF assms])
  show "dbGet (codes (snd (requestVerification e req w))) (pushKey e) = Some (issuedRecord e req)"
    by (simp add: requestVerification_accepted [OF assms] sendWhatsAppVerificationCode_codes
        dbGet_dbSet)
qed

lemmas issue_defs = exampleEnv_def exampleWorld_def exampleRequest_def issuedRecord_def
  truthy_def strOf_def dbGet_def dbSet_def formatPhoneNumber_def stripNonDigits_def
  isDigit_def startsWith_def substring_def

text \<open>
  A delivery that throws, and the delivery of the source with a configured account and
  a failing HTTP call, which returns \<open>False\<close>.
\<close>

theorem requestVerification_persists_first_witness:
  "httpMethod (exampleRequest ''0712345678'') = ''POST''
   \<and> truthy (body (exampleRequest ''0712345678'') ''phoneNumber'')
   \<and> requestVerification_with (\<lambda>w' p c. (Inl ''Network Error'', w'))
        (exampleEnv 1000 1000) (exampleRequest ''0712345678'') exampleWorld
      = ((200, [(''success'', JBool True), (''codeId'', JStr ''abc123'')]),
         exampleWorld\<lparr>codes := dbSet ''abc123''
           \<lparr>phoneNumber = ''+712345678'', code = ''123456'', expiresAt = 301000,
             createdAt = 1000\<rparr> (codes exampleWorld)\<rparr>)
   \<and> fst (requestVerification (exampleEnv 1000 1000) (exampleRequest ''0712345678'') exampleWorld)
      = (200, [(''success'', JBool True), (''codeId'', JStr ''abc123'')])
   \<and> fst (sendWhatsAppVerificationCode (exampleEnv 1000 1000) exampleWorld ''+712345678''
        ''123456'') = False"
proof -
  have post: "httpMethod (exampleRequest ''0712345678'') = ''POST''"
    and phone: "truthy (body (exampleRequest ''0712345678'') ''phoneNumber'')"
    by (simp_all add: issue_defs)
  have r: "issuedRecord (exampleEnv 1000 1000) (exampleRequest ''0712345678'')
        = \<lparr>phoneNumber = ''+712345678'', code = ''123456'', expiresAt = 301000, createdAt = 1000\<rparr>"
    by (simp add: issue_defs)
  have k: "pushKey (exampleEnv 1000 1000) = ''abc123''"
    by (simp add: exampleEnv_def)
  have fails: "fst (sendWhatsAppVerificationCode (exampleEnv 1000 1000) exampleWorld ''+712345678''
        ''123456'') = False"
    by (simp add: sendWhatsAppVerificationCode_def exampleEnv_def orElse_def truthy_def strOf_def)
  from requestVerification_persists_first [OF post phone,
      where w = exampleWorld and e = "exampleEnv 1000 1000"
        and deliver = "\<lambda>w' p c. (Inl ''Network Error'', w')"]
    post phone fails
  show ?thesis by (simp add: r k)
qed

text \<open>
  Claim C9, as the code has it. The record persisted for a POST with a non-empty phone
  number has \<open>expiresAt\<close> equal to the first reading of the clock plus 300000 and
  \<open>createdAt\<close> equal to the second reading. So \<open>expiresAt = createdAt + 300000\<close> holds
  when the two readings agree, and \<open>expiresAt \<le> createdAt + 300000\<close> when the second
  reading is not before the first.
\<close>

theorem requestVerification_expiry:
  assumes "httpMethod req = ''POST''" and "truthy (body req ''phoneNumber'')"
  shows "\<exists>r. dbGet (codes (snd (requestVerification e req w))) (pushKey e) = Some r
           \<and> expiresAt r = dateNow e 0 + 300000
           \<and> createdAt r = dateNow e 1
           \<and> (dateNow e 1 = dateNow e 0 \<longrightarrow> expiresAt r = createdAt r + 300000)
           \<and> (dateNow e 0 \<le> dateNow e 1 \<longrightarrow> expiresAt r \<le> createdAt r + 300000)"
proof -
  have "dbGet (codes (snd (requestVerification e req w))) (pushKey e) = Some (issuedRecord e req)"
    by (simp add: requestVerification_accepted [OF assms] sendWhatsAppVerificationCode_codes
        dbGet_dbSet)
  moreover have "expiresAt (issuedRecord e req) = dateNow e 0 + 300000"
    and "createdAt (issuedRecord e req) = dateNow e 1"
    by (simp_all add: issuedRecord_def)
  ultimately show ?thesis by simp
qed

theorem requestVerification_expiry_witness:
  "httpMethod (exampleRequest ''0712345678'') = ''POST''
   \<and> truthy (body (exampleRequest ''0712345678'') ''phoneNumber'')
   \<and> dateNow (exampleEnv 1000 1000) 1 = dateNow (exampleEnv 1000 1000) 0
   \<and> (\<exists>r. dbGet (codes (snd (requestVerification (exampleEnv 1000 1000)
              (exampleRequest ''0712345678'') exampleWorld))) ''abc123'' = Some r
          \<and> expiresAt r = 301000 \<and> createdAt r = 1000
          \<and> expiresAt r = createdAt r + 300000)"
proof -
  have post: "httpMethod (exampleRequest ''0712345678'') = ''POST''"
    and phone: "truthy (body (exampleRequest ''0712345678'') ''phoneNumber'')"
    by (simp_all add: issue_defs)
  have t: "dateNow (exampleEnv 1000 1000) 0 = 1000" "dateNow (exampleEnv 1000 1000) (Suc 0) = 1000"
    and k: "pushKey (exampleEnv 1000 1000) = ''abc123''"
    by (simp_all add: exampleEnv_def)
  from requestVerification_expiry [OF post phone,
      where e = "exampleEnv 1000 1000" and w = exampleWorld]
    post phone
  show ?thesis by (auto simp: t k)
qed

text \<open>
  Claim C9 as it is written fails when the clock ticks between the two readings: with
  readings 1000 and 1001 the record has \<open>expiresAt = 301000\<close> and \<open>createdAt = 1001\<close>.
\<close>

theorem requestVerification_expiry_counterexample:
  "map_option (\<lambda>r. (expiresAt r, createdAt r, expiresAt r = createdAt r + 300000))
     (dbGet (codes (snd (requestVerification (exampleEnv 1000 1001)
        (exampleRequest ''0712345678'') exampleWorld))) ''abc123'')
   = Some (301000, 1001, False)"
  by (simp add: requestVerification_def requestVerification_with_def
      sendWhatsAppVerificationCode_def orElse_def Let_def issue_defs update_conv')

section \<open>Identity resolution\<close>

lemma dbField_names:
  "dbField (dbChildUpdate k [(''firstName'', a), (''lastName'', b), (''displayName'', c)] node) k' f
     = (if k' = k
        then (if f = ''displayName'' then Some c else if f = ''lastName'' then Some b
              else if f = ''firstName'' then Some a else dbField node k f)
        else dbField node k' f)"
  by (simp add: dbField_def dbChildUpdate_def dbUpdate_def dbWrite_def dbSet_def dbGet_def
      update_conv' split: option.splits)

lemma dbGet_dbChildUpdate_other:
  "k' \<noteq> k \<Longrightarrow> dbGet (dbChildUpdate k written node) k' = dbGet node k'"
  by (simp add: dbChildUpdate_def dbGet_dbSet)

lemma find_rename:
  "find (\<lambda>x. userPhone x = p) (map (\<lambda>x. if uid x = i then x\<lparr>displayName := dn\<rparr> else x) dir)
     = map_option (\<lambda>x. if uid x = i then x\<lparr>displayName := dn\<rparr> else x)
         (find (\<lambda>x. userPhone x = p) dir)"
  by (induction dir) auto

lemma phones_rename:
  "map userPhone (map (\<lambda>x. if uid x = i then x\<lparr>displayName := dn\<rparr> else x) dir) = map userPhone dir"
  by (induction dir) auto

lemma uids_rename:
  "map uid (map (\<lambda>x. if uid x = i then x\<lparr>displayName := dn\<rparr> else x) dir) = map uid dir"
  by (induction dir) auto

lemma userPhone_rename:
  "userPhone \<circ> (\<lambda>x. if uid x = i then x\<lparr>displayName := dn\<rparr> else x) = userPhone"
  by (rule ext) simp

lemma uid_rename:
  "uid \<circ> (\<lambda>x. if uid x = i then x\<lparr>displayName := dn\<rparr> else x) = uid"
  by (rule ext) simp

lemma find_Some_mem: "find P xs = Some x \<Longrightarrow> x \<in> set xs \<and> P x"
  by (induction xs) (auto split: if_splits)

lemma find_None_filter: "find P xs = None \<Longrightarrow> filter P xs = []"
  by (induction xs) (auto split: if_splits)

lemma resolveUser_found:
  assumes "validPhone e phone" and "find (\<lambda>x. userPhone x = phone) (auth w) = Some u"
  shows "resolveUser e phone fn ln w =
           Inr (u, w\<lparr>auth := map (\<lambda>x. if uid x = uid u then x\<lparr>displayName := fn @ '' '' @ ln\<rparr> else x)
                               (auth w),
                     users := dbChildUpdate (uid u)
                                [(''firstName'', JStr fn), (''lastName'', JStr ln),
                                 (''displayName'', JStr (fn @ '' '' @ ln))] (users w)\<rparr>)"
proof -
  from find_Some_mem [OF assms(2)] have "uid u \<in> uid ` set (auth w)" by simp
  with assms show ?thesis
    by (simp add: resolveUser_def getUserByPhoneNumber_def updateUser_def Let_def)
qed

lemma resolveUser_new:
  assumes "validPhone e phone" and "find (\<lambda>x. userPhone x = phone) (auth w) = None"
    and "newUid e \<notin> uid ` set (auth w)"
  shows "resolveUser e phone fn ln w =
           Inr (\<lparr>uid = newUid e, userPhone = phone, displayName = fn @ '' '' @ ln\<rparr>,
                w\<lparr>auth := auth w @ [\<lparr>uid = newUid e, userPhone = phone,
                                       displayName = fn @ '' '' @ ln\<rparr>],
                  users := dbSet (newUid e)
                             [(''firstName'', JStr fn), (''lastName'', JStr ln),
                              (''phoneNumber'', JStr phone), (''uid'', JStr (newUid e)),
                              (''role'', JStr ''user''), (''createdAt'', JNum (dateNow e 1))]
                             (users w)\<rparr>)"
proof -
  from assms(2) have "phone \<notin> userPhone ` set (auth w)"
    by (auto simp: find_None_iff)
  with assms show ?thesis
    by (simp add: resolveUser_def getUserByPhoneNumber_def createUser_def Let_def)
qed

lemma resolveUser_refused:
  "\<not> validPhone e phone
     \<or> (find (\<lambda>x. userPhone x = phone) (auth w) = None \<and> newUid e \<in> uid ` set (auth w))
   \<Longrightarrow> \<exists>err. resolveUser e phone fn ln w = Inl err"
  by (auto simp: resolveUser_def getUserByPhoneNumber_def createUser_def Let_def)

lemma resolveUser_Inr:
  assumes "resolveUser e phone fn ln w = Inr (u, w1)"
  shows "validPhone e phone
     \<and> (case find (\<lambda>x. userPhone x = phone) (auth w) of
          Some u0 \<Rightarrow>
            u = u0
            \<and> w1 = w\<lparr>auth := map (\<lambda>x. if uid x = uid u0 then x\<lparr>displayName := fn @ '' '' @ ln\<rparr> else x)
                               (auth w),
                     users := dbChildUpdate (uid u0)
                                [(''firstName'', JStr fn), (''lastName'', JStr ln),
                                 (''displayName'', JStr (fn @ '' '' @ ln))] (users w)\<rparr>
        | None \<Rightarrow>
            newUid e \<notin> uid ` set (auth w)
            \<and> u = \<lparr>uid = newUid e, userPhone = phone, displayName = fn @ '' '' @ ln\<rparr>
            \<and> w1 = w\<lparr>auth := auth w @ [\<lparr>uid = newUid e, userPhone = phone,
                                       displayName = fn @ '' '' @ ln\<rparr>],
                     users := dbSet (newUid e)
                             [(''firstName'', JStr fn), (''lastName'', JStr ln),
                              (''phoneNumber'', JStr phone), (''uid'', JStr (newUid e)),
                              (''role'', JStr ''user''), (''createdAt'', JNum (dateNow e 1))]
                             (users w)\<rparr>)"
proof -
  have valid: "validPhone e phone"
  proof (rule ccontr)
    assume "\<not> validPhone e phone"
    then have "\<exists>err. resolveUser e phone fn ln w = Inl err"
      using resolveUser_refused [of e phone w fn ln] by simp
    with assms show False by auto
  qed
  show ?thesis
  proof (cases "find (\<lambda>x. userPhone x = phone) (auth w)")
    case None
    have fresh: "newUid e \<notin> uid ` set (auth w)"
    proof (rule ccontr)
      assume "\<not> newUid e \<notin> uid ` set (auth w)"
      with None have "\<exists>err. resolveUser e phone fn ln w = Inl err"
        using resolveUser_refused [of e phone w fn ln] by simp
      with assms show False by auto
    qed
    from resolveUser_new [OF valid None fresh, of fn ln] assms valid None fresh
    show ?thesis by simp
  next
    case (Some u0)
    from resolveUser_found [OF valid Some, of fn ln] assms valid Some
    show ?thesis by simp
  qed
qed

lemma resolveUser_distinct:
  assumes "resolveUser e phone fn ln w = Inr (u, w1)"
    and "distinct (map userPhone (auth w))"
  shows "distinct (map userPhone (auth w1))"
proof (cases "find (\<lambda>x. userPhone x = phone) (auth w)")
  case None
  then have "phone \<notin> userPhone ` set (auth w)"
    by (auto simp: find_None_iff)
  with resolveUser_Inr [OF assms(1)] None assms(2) show ?thesis
    by simp
next
  case (Some u0)
  with resolveUser_Inr [OF assms(1)] assms(2) show ?thesis
    by (simp add: userPhone_rename)
qed

lemma verifyCode_distinct:
  assumes "distinct (map userPhone (auth w))"
  shows "distinct (map userPhone (auth (snd (verifyCode e req w))))"
proof (cases "wellFormed req")
  case False
  from verifyCode_not_wellFormed [OF this, of e w] assms show ?thesis by simp
next
  case True
  show ?thesis
  proof (cases "fst (fst (verifyCode e req w)) = 200")
    case ok: True
    obtain resp w' where eq: "verifyCode e req w = (resp, w')"
      by (cases "verifyCode e req w")
    with ok have ok': "fst resp = 200" by simp
    from eq ok' obtain v u w1 where
      v: "dbGet (codes w) (strOf (body req ''codeId'')) = Some v"
      and r: "resolveUser e (phoneNumber v) (strOf (body req ''firstName''))
            (strOf (body req ''lastName'')) w = Inr (u, w1)"
      and w': "w' = w1\<lparr>codes := dbRemove (strOf (body req ''codeId'')) (codes w1)\<rparr>"
      and i: "map_of (snd resp) ''userId'' = Some (JStr (uid u))"
      by (rule verifyCode_successE)
    from resolveUser_distinct [OF r assms] w' eq show ?thesis by simp
  next
    case False
    then have "snd (verifyCode e req w) = w
        \<or> snd (verifyCode e req w) = w\<lparr>codes := dbRemove (strOf (body req ''codeId'')) (codes w)\<rparr>"
      unfolding verifyCode_wellFormed [OF True]
      by (simp split: option.splits sum.splits prod.splits if_splits)
    with assms show ?thesis by auto
  qed
qed

lemma verifyCode_found:
  assumes "verifyCode e req w = (resp, w')" and "fst resp = 200"
    and "dbGet (codes w) (strOf (body req ''codeId'')) = Some v"
    and "find (\<lambda>x. userPhone x = phoneNumber v) (auth w) = Some u"
  shows "auth w' = map (\<lambda>x. if uid x = uid u
                          then x\<lparr>displayName := strOf (body req ''firstName'') @ '' ''
                                   @ strOf (body req ''lastName'')\<rparr> else x) (auth w)"
    and "users w' = dbChildUpdate (uid u)
           [(''firstName'', JStr (strOf (body req ''firstName''))),
            (''lastName'', JStr (strOf (body req ''lastName''))),
            (''displayName'', JStr (strOf (body req ''firstName'') @ '' ''
                                      @ strOf (body req ''lastName'')))] (users w)"
    and "map_of (snd resp) ''userId'' = Some (JStr (uid u))"
proof -
  from assms(1,2) obtain v0 u0 w1 where
    v0: "dbGet (codes w) (strOf (body req ''codeId'')) = Some v0"
    and r: "resolveUser e (phoneNumber v0) (strOf (body req ''firstName''))
            (strOf (body req ''lastName'')) w = Inr (u0, w1)"
    and w': "w' = w1\<lparr>codes := dbRemove (strOf (body req ''codeId'')) (codes w1)\<rparr>"
    and i: "map_of (snd resp) ''userId'' = Some (JStr (uid u0))"
    by (rule verifyCode_successE)
  from v0 assms(3) have same: "v0 = v" by simp
  from resolveUser_Inr [OF r] assms(4) have u0: "u0 = u"
    and w1: "w1 = w\<lparr>auth := map (\<lambda>x. if uid x = uid u
                          then x\<lparr>displayName := strOf (body req ''firstName'') @ '' ''
                                   @ strOf (body req ''lastName'')\<rparr> else x) (auth w),
                     users := dbChildUpdate (uid u)
                       [(''firstName'', JStr (strOf (body req ''firstName''))),
                        (''lastName'', JStr (strOf (body req ''lastName''))),
                        (''displayName'', JStr (strOf (body req ''firstName'') @ '' ''
                                      @ strOf (body req ''lastName'')))] (users w)\<rparr>"
    by (simp_all add: same)
  from w' w1 show "auth w' = map (\<lambda>x. if uid x = uid u
                          then x\<lparr>displayName := strOf (body req ''firstName'') @ '' ''
                                   @ strOf (body req ''lastName'')\<rparr> else x) (auth w)"
    by simp
  from w' w1 show "users w' = dbChildUpdate (uid u)
           [(''firstName'', JStr (strOf (body req ''firstName''))),
            (''lastName'', JStr (strOf (body req ''lastName''))),
            (''displayName'', JStr (strOf (body req ''firstName'') @ '' ''
                                      @ strOf (body req ''lastName'')))] (users w)"
    by simp
  from i u0 show "map_of (snd resp) ''userId'' = Some (JStr (uid u))" by simp
qed

lemma verifyCode_new:
  assumes "verifyCode e req w = (resp, w')" and "fst resp = 200"
    and "dbGet (codes w) (strOf (body req ''codeId'')) = Some v"
    and "find (\<lambda>x. userPhone x = phoneNumber v) (auth w) = None"
  shows "auth w' = auth w @ [\<lparr>uid = newUid e, userPhone = phoneNumber v,
             displayName = strOf (body req ''firstName'') @ '' '' @ strOf (body req ''lastName'')\<rparr>]"
    and "users w' = dbSet (newUid e)
           [(''firstName'', JStr (strOf (body req ''firstName''))),
            (''lastName'', JStr (strOf (body req ''lastName''))),
            (''phoneNumber'', JStr (phoneNumber v)), (''uid'', JStr (newUid e)),
            (''role'', JStr ''user''), (''createdAt'', JNum (dateNow e 1))] (users w)"
    and "newUid e \<notin> uid ` set (auth w)"
    and "map_of (snd resp) ''userId'' = Some (JStr (newUid e))"
proof -
  from assms(1,2) obtain v0 u0 w1 where
    v0: "dbGet (codes w) (strOf (body req ''codeId'')) = Some v0"
    and r: "resolveUser e (phoneNumber v0) (strOf (body req ''firstName''))
            (strOf (body req ''lastName'')) w = Inr (u0, w1)"
    and w': "w' = w1\<lparr>codes := dbRemove (strOf (body req ''codeId'')) (codes w1)\<rparr>"
    and i: "map_of (snd resp) ''userId'' = Some (JStr (uid u0))"
    by (rule verifyCode_successE)
  from v0 assms(3) have same: "v0 = v" by simp
  from resolveUser_Inr [OF r] assms(4) have fresh: "newUid e \<notin> uid ` set (auth w)"
    and u0: "u0 = \<lparr>uid = newUid e, userPhone = phoneNumber v,
             displayName = strOf (body req ''firstName'') @ '' '' @ strOf (body req ''lastName'')\<rparr>"
    and w1: "w1 = w\<lparr>auth := auth w @ [\<lparr>uid = newUid e, userPhone = phoneNumber v,
             displayName = strOf (body req ''firstName'') @ '' '' @ strOf (body req ''lastName'')\<rparr>],
                     users := dbSet (newUid e)
           [(''firstName'', JStr (strOf (body req ''firstName''))),
            (''lastName'', JStr (strOf (body req ''lastName''))),
            (''phoneNumber'', JStr (phoneNumber v)), (''uid'', JStr (newUid e)),
            (''role'', JStr ''user''), (''createdAt'', JNum (dateNow e 1))] (users w)\<rparr>"
    by (simp_all add: same)
  from w' w1 show "auth w' = auth w @ [\<lparr>uid = newUid e, userPhone = phoneNumber v,
             displayName = strOf (body req ''firstName'') @ '' '' @ strOf (body req ''lastName'')\<rparr>]"
    by simp
  from w' w1 show "users w' = dbSet (newUid e)
           [(''firstName'', JStr (strOf (body req ''firstName''))),
            (''lastName'', JStr (strOf (body req ''lastName''))),
            (''phoneNumber'', JStr (phoneNumber v)), (''uid'', JStr (newUid e)),
            (''role'', JStr ''user''), (''createdAt'', JNum (dateNow e 1))] (users w)"
    by simp
  from fresh show "newUid e \<notin> uid ` set (auth w)" .
  from i u0 show "map_of (snd resp) ''userId'' = Some (JStr (newUid e))" by simp
qed

text \<open>
  Claim C7. A directory in which no two users share a phone number stays so after any
  call of the Verifier. A call that returns status 200 for a record whose phone number
  has a user \<open>u\<close> leaves the uids and phone numbers of the directory as they were, gives
  \<open>u\<close> the submitted display name, writes the three name fields of \<open>u\<close> in the users
  node and leaves every other field of it (its \<open>uid\<close> and \<open>role\<close> among them) and every
  other user as they were. A call that returns status 200 for a record whose phone
  number has no user appends one user with that phone number, so that the phone number
  has exactly that user, and stores it in the users node with the role \<open>user\<close>.
\<close>

theorem verifyCode_identity:
  "(distinct (map userPhone (auth w))
      \<longrightarrow> distinct (map userPhone (auth (snd (verifyCode e req w)))))
   \<and> (\<forall>resp w' v u.
         verifyCode e req w = (resp, w') \<and> fst resp = 200
         \<and> dbGet (codes w) (strOf (body req ''codeId'')) = Some v
         \<and> find (\<lambda>x. userPhone x = phoneNumber v) (auth w) = Some u
       \<longrightarrow> map uid (auth w') = map uid (auth w)
           \<and> map userPhone (auth w') = map userPhone (auth w)
           \<and> find (\<lambda>x. userPhone x = phoneNumber v) (auth w')
               = Some (u\<lparr>displayName := strOf (body req ''firstName'') @ '' ''
                                          @ strOf (body req ''lastName'')\<rparr>)
           \<and> dbField (users w') (uid u) ''firstName'' = Some (JStr (strOf (body req ''firstName'')))
           \<and> dbField (users w') (uid u) ''lastName'' = Some (JStr (strOf (body req ''lastName'')))
           \<and> dbField (users w') (uid u) ''displayName''
               = Some (JStr (strOf (body req ''firstName'') @ '' '' @ strOf (body req ''lastName'')))
           \<and> (\<forall>f. f \<notin> {''firstName'', ''lastName'', ''displayName''}
                  \<longrightarrow> dbField (users w') (uid u) f = dbField (users w) (uid u) f)
           \<and> (\<forall>k. k \<noteq> uid u \<longrightarrow> dbGet (users w') k = dbGet (users w) k)
           \<and> map_of (snd resp) ''userId'' = Some (JStr (uid u)))
   \<and> (\<forall>resp w' v.
         verifyCode e req w = (resp, w') \<and> fst resp = 200
         \<and> dbGet (codes w) (strOf (body req ''codeId'')) = Some v
         \<and> find (\<lambda>x. userPhone x = phoneNumber v) (auth w) = None
       \<longrightarrow> auth w' = auth w @ [\<lparr>uid = newUid e, userPhone = phoneNumber v,
               displayName = strOf (body req ''firstName'') @ '' '' @ strOf (body req ''lastName'')\<rparr>]
           \<and> newUid e \<notin> uid ` set (auth w)
           \<and> identities w' (phoneNumber v) = [\<lparr>uid = newUid e, userPhone = phoneNumber v,
               displayName = strOf (body req ''firstName'') @ '' '' @ strOf (body req ''lastName'')\<rparr>]
           \<and> dbField (users w') (newUid e) ''role'' = Some (JStr ''user'')
           \<and> dbField (users w') (newUid e) ''uid'' = Some (JStr (newUid e))
           \<and> (\<forall>k. k \<noteq> newUid e \<longrightarrow> dbGet (users w') k = dbGet (users w) k)
           \<and> map_of (snd resp) ''userId'' = Some (JStr (newUid e)))"
proof (intro conjI allI impI)
  assume "distinct (map userPhone (auth w))"
  then show "distinct (map userPhone (auth (snd (verifyCode e req w))))"
    by (rule verifyCode_distinct)
next
  fix resp w' v u
  assume h: "verifyCode e req w = (resp, w') \<and> fst resp = 200
         \<and> dbGet (codes w) (strOf (body req ''codeId'')) = Some v
         \<and> find (\<lambda>x. userPhone x = phoneNumber v) (auth w) = Some u"
  then have a: "verifyCode e req w = (resp, w')" and b: "fst resp = 200"
    and c: "dbGet (codes w) (strOf (body req ''codeId'')) = Some v"
    and d: "find (\<lambda>x. userPhone x = phoneNumber v) (auth w) = Some u"
    by simp_all
  note f = verifyCode_found [OF a b c d]
  show "map uid (auth w') = map uid (auth w)"
    unfolding f(1) by (rule uids_rename)
  show "map userPhone (auth w') = map userPhone (auth w)"
    unfolding f(1) by (rule phones_rename)
  show "find (\<lambda>x. userPhone x = phoneNumber v) (auth w')
               = Some (u\<lparr>displayName := strOf (body req ''firstName'') @ '' ''
                                          @ strOf (body req ''lastName'')\<rparr>)"
    unfolding f(1) find_rename d by simp
  show "dbField (users w') (uid u) ''firstName'' = Some (JStr (strOf (body req ''firstName'')))"
    unfolding f(2) dbField_names by simp
  show "dbField (users w') (uid u) ''lastName'' = Some (JStr (strOf (body req ''lastName'')))"
    unfolding f(2) dbField_names by simp
  show "dbField (users w') (uid u) ''displayName''
               = Some (JStr (strOf (body req ''firstName'') @ '' '' @ strOf (body req ''lastName'')))"
    unfolding f(2) dbField_names by simp
  show "map_of (snd resp) ''userId'' = Some (JStr (uid u))"
    by (rule f(3))
  {
    fix fld :: string
    assume "fld \<notin> {''firstName'', ''lastName'', ''displayName''}"
    then show "dbField (users w') (uid u) fld = dbField (users w) (uid u) fld"
      unfolding f(2) dbField_names by simp
  }
  {
    fix k
    assume "k \<noteq> uid u"
    then show "dbGet (users w') k = dbGet (users w) k"
      unfolding f(2) by (rule dbGet_dbChildUpdate_other)
  }
next
  fix resp w' v
  assume h: "verifyCode e req w = (resp, w') \<and> fst resp = 200
         \<and> dbGet (codes w) (strOf (body req ''codeId'')) = Some v
         \<and> find (\<lambda>x. userPhone x = phoneNumber v) (auth w) = None"
  then have a: "verifyCode e req w = (resp, w')" and b: "fst resp = 200"
    and c: "dbGet (codes w) (strOf (body req ''codeId'')) = Some v"
    and d: "find (\<lambda>x. userPhone x = phoneNumber v) (auth w) = None"
    by simp_all
  note n = verifyCode_new [OF a b c d]
  show "auth w' = auth w @ [\<lparr>uid = newUid e, userPhone = phoneNumber v,
               displayName = strOf (body req ''firstName'') @ '' '' @ strOf (body req ''lastName'')\<rparr>]"
    by (rule n(1))
  show "newUid e \<notin> uid ` set (auth w)"
    by (rule n(3))
  show "identities w' (phoneNumber v) = [\<lparr>uid = newUid e, userPhone = phoneNumber v,
               displayName = strOf (body req ''firstName'') @ '' '' @ strOf (body req ''lastName'')\<rparr>]"
    using find_None_filter [OF d] by (simp add: identities_def n(1))
  show "dbField (users w') (newUid e) ''role'' = Some (JStr ''user'')"
    by (simp add: n(2) dbField_def dbGet_dbSet)
  show "dbField (users w') (newUid e) ''uid'' = Some (JStr (newUid e))"
    by (simp add: n(2) dbField_def dbGet_dbSet)
  show "map_of (snd resp) ''userId'' = Some (JStr (newUid e))"
    by (rule n(4))
  {
    fix k
    assume "k \<noteq> newUid e"
    then show "dbGet (users w') k = dbGet (users w) k"
      by (simp add: n(2) dbGet_dbSet)
  }
qed

theorem verifyCode_identity_witness:
  "distinct (map userPhone (auth exampleWorld))
   \<and> distinct (map userPhone (auth (snd (verifyCode (exampleEnv 2000 2001)
         (exampleVerify ''abc123'' ''123456'') exampleWorld))))
   \<and> fst (fst (verifyCode (exampleEnv 400 401) (exampleVerify ''old'' ''654321'') exampleWorld)) = 200
   \<and> find (\<lambda>x. userPhone x = ''+15550100'') (auth exampleWorld)
       = Some \<lparr>uid = ''u1'', userPhone = ''+15550100'', displayName = ''Ada Byron''\<rparr>
   \<and> map uid (auth (snd (verifyCode (exampleEnv 400 401) (exampleVerify ''old'' ''654321'')
         exampleWorld))) = [''u1'']
   \<and> find (\<lambda>x. userPhone x = ''+15550100'')
        (auth (snd (verifyCode (exampleEnv 400 401) (exampleVerify ''old'' ''654321'') exampleWorld)))
       = Some \<lparr>uid = ''u1'', userPhone = ''+15550100'', displayName = ''Grace Hopper''\<rparr>
   \<and> dbField (users (snd (verifyCode (exampleEnv 400 401) (exampleVerify ''old'' ''654321'')
         exampleWorld))) ''u1'' ''firstName'' = Some (JStr ''Grace'')
   \<and> dbField (users (snd (verifyCode (exampleEnv 400 401) (exampleVerify ''old'' ''654321'')
         exampleWorld))) ''u1'' ''role'' = Some (JStr ''admin'')
   \<and> fst (fst (verifyCode (exampleEnv 2000 2001) (exampleVerify ''abc123'' ''123456'')
         exampleWorld)) = 200
   \<and> find (\<lambda>x. userPhone x = ''+712345678'') (auth exampleWorld) = None
   \<and> identities (snd (verifyCode (exampleEnv 2000 2001) (exampleVerify ''abc123'' ''123456'')
         exampleWorld)) ''+712345678''
       = [\<lparr>uid = ''u2'', userPhone = ''+712345678'', displayName = ''Grace Hopper''\<rparr>]
   \<and> dbField (users (snd (verifyCode (exampleEnv 2000 2001) (exampleVerify ''abc123'' ''123456'')
         exampleWorld))) ''u2'' ''role'' = Some (JStr ''user'')"
proof -
  let ?old = "verifyCode (exampleEnv 400 401) (exampleVerify ''old'' ''654321'') exampleWorld"
  let ?new = "verifyCode (exampleEnv 2000 2001) (exampleVerify ''abc123'' ''123456'') exampleWorld"
  let ?vold = "\<lparr>phoneNumber = ''+15550100'', code = ''654321'', expiresAt = 500, createdAt = 200\<rparr>"
  let ?vnew = "\<lparr>phoneNumber = ''+712345678'', code = ''123456'', expiresAt = 301000,
    createdAt = 1000\<rparr>"
  let ?u1 = "\<lparr>uid = ''u1'', userPhone = ''+15550100'', displayName = ''Ada Byron''\<rparr>"
  have inv: "distinct (map userPhone (auth exampleWorld))"
    by (simp add: exampleWorld_def)
  have ok_old: "fst (fst ?old) = 200"
    by (simp add: eval_defs)
  have ok_new: "fst (fst ?new) = 200"
    by (simp add: example_first_call)
  have rec_old: "dbGet (codes exampleWorld) (strOf (body (exampleVerify ''old'' ''654321'') ''codeId''))
      = Some ?vold"
    and rec_new: "dbGet (codes exampleWorld)
        (strOf (body (exampleVerify ''abc123'' ''123456'') ''codeId'')) = Some ?vnew"
    by (simp_all add: example_defs)
  have found: "find (\<lambda>x. userPhone x = phoneNumber ?vold) (auth exampleWorld) = Some ?u1"
    and none: "find (\<lambda>x. userPhone x = phoneNumber ?vnew) (auth exampleWorld) = None"
    by (simp_all add: exampleWorld_def)
  have names: "strOf (body (exampleVerify ''old'' ''654321'') ''firstName'') = ''Grace''"
    "strOf (body (exampleVerify ''old'' ''654321'') ''lastName'') = ''Hopper''"
    "strOf (body (exampleVerify ''abc123'' ''123456'') ''firstName'') = ''Grace''"
    "strOf (body (exampleVerify ''abc123'' ''123456'') ''lastName'') = ''Hopper''"
    by (simp_all add: example_defs)
  have env: "newUid (exampleEnv 2000 2001) = ''u2''"
    by (simp add: exampleEnv_def)
  have before: "map uid (auth exampleWorld) = [''u1'']"
    "dbField (users exampleWorld) ''u1'' ''role'' = Some (JStr ''admin'')"
    by (simp_all add: exampleWorld_def dbField_def dbGet_def)
  note t_old = verifyCode_identity [of exampleWorld "exampleEnv 400 401"
      "exampleVerify ''old'' ''654321''"]
  note t_new = verifyCode_identity [of exampleWorld "exampleEnv 2000 2001"
      "exampleVerify ''abc123'' ''123456''"]
  from t_new [THEN conjunct1, rule_format, OF inv]
  have c1: "distinct (map userPhone (auth (snd ?new)))" .
  from t_old [THEN conjunct2, THEN conjunct1, rule_format, of "fst ?old" "snd ?old" ?vold ?u1]
    ok_old rec_old found
  have c2: "map uid (auth (snd ?old)) = [''u1'']"
    and c3: "find (\<lambda>x. userPhone x = ''+15550100'') (auth (snd ?old))
       = Some \<lparr>uid = ''u1'', userPhone = ''+15550100'', displayName = ''Grace Hopper''\<rparr>"
    and c4: "dbField (users (snd ?old)) ''u1'' ''firstName'' = Some (JStr ''Grace'')"
    and c5: "dbField (users (snd ?old)) ''u1'' ''role'' = Some (JStr ''admin'')"
    by (simp_all add: names before)
  from t_new [THEN conjunct2, THEN conjunct2, rule_format, of "fst ?new" "snd ?new" ?vnew]
    ok_new rec_new none
  have c6: "identities (snd ?new) ''+712345678''
       = [\<lparr>uid = ''u2'', userPhone = ''+712345678'', displayName = ''Grace Hopper''\<rparr>]"
    and c7: "dbField (users (snd ?new)) ''u2'' ''role'' = Some (JStr ''user'')"
    by (simp_all add: names env)
  from inv c1 ok_old found c2 c3 c4 c5 ok_new none c6 c7 show ?thesis
    by simp
qed

end
